theory Spec2Isabelle
  imports Main
begin

section \<open>Values, records and errors\<close>

text \<open>
  The store \<^verbatim>\<open>ephemeraldb.py\<close> works on untyped Python values. The values modelled here
  are \<^verbatim>\<open>None\<close>, integers, strings, lists and records (\<^verbatim>\<open>dict\<close> with string keys). A
  record is an association list in insertion order, which is the order in which Python
  iterates a \<^verbatim>\<open>dict\<close> and the order \<^verbatim>\<open>popitem\<close> undoes. Values are immutable trees:
  object identity (two names for one mutable object) is not part of the model, except
  where an operation returns the caller's records explicitly.
\<close>

datatype pyval =
    VNone
  | VInt int
  | VStr string
  | VList "pyval list"
  | VDict "(string \<times> pyval) list"

type_synonym dict = "(string \<times> pyval) list"

text \<open>
  The exceptions of the module. The two \<^verbatim>\<open>ValueError\<close>s it raises itself are kept apart:
  \<open>UnsupportedOperator\<close> is the one of \<^verbatim>\<open>_get_key_operator\<close>, \<open>InvalidSelection\<close> the
  one of \<^verbatim>\<open>_validate_keys\<close>. The others are raised by the Python operations the code uses.
\<close>

datatype error =
    DuplicateKeyError
  | UnsupportedOperator
  | InvalidSelection
  | TypeError
  | KeyError
  | IndexError
  | AttributeError

subsection \<open>Strings\<close>

text \<open>\<^verbatim>\<open>key.split(".")\<close>: always at least one part, empty parts kept.\<close>

fun split_dot :: "string \<Rightarrow> string list" where
  "split_dot [] = [[]]"
| "split_dot (c # cs) =
     (if c = CHR ''.'' then [] # split_dot cs
      else (c # hd (split_dot cs)) # tl (split_dot cs))"

text \<open>\<^verbatim>\<open>".".join(parts)\<close>\<close>

fun join_dot :: "string list \<Rightarrow> string" where
  "join_dot [] = []"
| "join_dot [p] = p"
| "join_dot (p # q # ps) = p @ ''.'' @ join_dot (q # ps)"

text \<open>\<^verbatim>\<open>s.startswith(p)\<close>\<close>

definition startswith :: "string \<Rightarrow> string \<Rightarrow> bool" where
  "startswith s p = (take (length p) s = p)"

text \<open>\<^verbatim>\<open>s.replace(p, '')\<close>: every non-overlapping occurrence of \<open>p\<close>, found from the left, is
  removed; an empty \<open>p\<close> leaves \<open>s\<close> as it is.\<close>

function remove_all :: "string \<Rightarrow> string \<Rightarrow> string" where
  "remove_all [] p = []"
| "remove_all (c # cs) p =
     (if p \<noteq> [] \<and> startswith (c # cs) p then remove_all (drop (length p) (c # cs)) p
      else c # remove_all cs p)"
  by pat_completeness auto
termination
  by (relation "measure (\<lambda>(s, p). length s)") auto

text \<open>\<^verbatim>\<open>a in b\<close> for two strings: \<open>a\<close> occurs in \<open>b\<close>.\<close>

fun str_contains :: "string \<Rightarrow> string \<Rightarrow> bool" where
  "str_contains [] a = (a = [])"
| "str_contains (c # cs) a = (startswith (c # cs) a \<or> str_contains cs a)"

text \<open>Strings are ordered lexicographically by code point.\<close>

fun str_less :: "string \<Rightarrow> string \<Rightarrow> bool" where
  "str_less [] [] = False"
| "str_less [] (y # ys) = True"
| "str_less (x # xs) [] = False"
| "str_less (x # xs) (y # ys) =
     (if x = y then str_less xs ys else (of_char x :: nat) < of_char y)"

subsection \<open>Dictionary operations\<close>

text \<open>\<^verbatim>\<open>d[k] = v\<close>: an existing key keeps its position, a new key goes last.\<close>

fun dict_set :: "dict \<Rightarrow> string \<Rightarrow> pyval \<Rightarrow> dict" where
  "dict_set [] k v = [(k, v)]"
| "dict_set ((k', v') # d) k v =
     (if k' = k then (k, v) # d else (k', v') # dict_set d k v)"

text \<open>The dictionary left by \<^verbatim>\<open>d.pop(k)\<close>.\<close>

definition dict_del :: "dict \<Rightarrow> string \<Rightarrow> dict" where
  "dict_del d k = filter (\<lambda>kv. fst kv \<noteq> k) d"

text \<open>\<^verbatim>\<open>a.update(b)\<close>: the items of \<open>b\<close> are stored into \<open>a\<close> in order.\<close>

definition dict_update :: "dict \<Rightarrow> dict \<Rightarrow> dict" where
  "dict_update a b = fold (\<lambda>kv d. dict_set d (fst kv) (snd kv)) b a"

section \<open>The codec: \<^verbatim>\<open>_flatten\<close> and \<^verbatim>\<open>_unflatten\<close>\<close>

text \<open>
  The renaming loop of \<^verbatim>\<open>__flatten\<close>:
  \<^verbatim>\<open>for flat_sub_key in list(flat_sub_dictionary.keys()):
      flat_key = key + '.' + flat_sub_key
      flat_sub_dictionary[flat_key] = flat_sub_dictionary.pop(flat_sub_key)\<close>
  It runs over a snapshot of the keys and renames in place: the right-hand side pops the
  current value of the old key, then the new key is stored into the same dictionary. A key
  of the snapshot is removed only by its own step, so \<^verbatim>\<open>pop\<close> always finds it: the branch
  \<open>None\<close> stands for a \<^verbatim>\<open>KeyError\<close> that is never raised (lemma
  \<open>rename_keys_pop_defined\<close> below).
\<close>

definition rename_step :: "string \<Rightarrow> string \<Rightarrow> dict \<Rightarrow> dict" where
  "rename_step key flat_sub_key d =
     (case map_of d flat_sub_key of
        None \<Rightarrow> d
      | Some v \<Rightarrow> dict_set (dict_del d flat_sub_key) (key @ ''.'' @ flat_sub_key) v)"

definition rename_keys :: "string \<Rightarrow> dict \<Rightarrow> dict" where
  "rename_keys key flat_sub_dictionary =
     fold (rename_step key) (map fst flat_sub_dictionary) flat_sub_dictionary"

lemma size_butlast_dict:
  "d \<noteq> [] \<Longrightarrow> size_list f (butlast d) < size_list f d"
  by (induction d) auto

lemma size_last_dict:
  "d \<noteq> [] \<Longrightarrow> f (last d) < size_list f d"
  by (induction d) auto

text \<open>
  \<^verbatim>\<open>__flatten\<close>: \<^verbatim>\<open>popitem\<close> takes the item inserted last. A value that is not a record,
  or is the empty record, is a leaf. (\<^verbatim>\<open>_flatten\<close> is \<^verbatim>\<open>__flatten\<close> of a deep copy; on
  immutable values they are the same function.)
\<close>

function flatten :: "dict \<Rightarrow> dict" where
  "flatten dictionary =
     (if dictionary = [] then []
      else
        (case snd (last dictionary) of
           VDict sub \<Rightarrow>
             if sub = [] then
               dict_update [(fst (last dictionary), snd (last dictionary))]
                 (flatten (butlast dictionary))
             else
               dict_update (rename_keys (fst (last dictionary)) (flatten sub))
                 (flatten (butlast dictionary))
         | _ \<Rightarrow>
             dict_update [(fst (last dictionary), snd (last dictionary))]
               (flatten (butlast dictionary))))"
  by pat_completeness auto
termination
proof (relation "measure (\<lambda>d. size_list (size_prod (\<lambda>_. 0) size) d)")
  fix dictionary :: dict and sub :: dict
  assume ne: "dictionary \<noteq> []" and l: "snd (last dictionary) = VDict sub"
  have "size_prod (\<lambda>_. 0) size (last dictionary) < size_list (size_prod (\<lambda>_. 0) size) dictionary"
    using ne by (rule size_last_dict)
  moreover have "size_list (size_prod (\<lambda>_. 0) size) sub
      < size_prod (\<lambda>_. 0) size (last dictionary)"
    using l by (cases "last dictionary") simp
  ultimately show "(sub, dictionary) \<in> measure (\<lambda>d. size_list (size_prod (\<lambda>_. 0) size) d)"
    by simp
qed (simp_all add: size_butlast_dict)

declare flatten.simps [simp del]

text \<open>
  One item of \<^verbatim>\<open>_unflatten\<close>: walk \<^verbatim>\<open>parts[:-1]\<close>, creating an empty record where a part
  is missing, then store the value under \<^verbatim>\<open>parts[-1]\<close>. Walking into a stored value that
  is not a record ends in a \<^verbatim>\<open>TypeError\<close>, whatever the value is: a number or \<^verbatim>\<open>None\<close>
  fails at the membership test, a string or a list at the subscript with a string index.
  Walking into a stored record (an empty-record leaf) continues inside it; in Python that
  record is the very object held by the flat map, here it is a copy.
\<close>

fun set_path :: "dict \<Rightarrow> string list \<Rightarrow> pyval \<Rightarrow> error + dict" where
  "set_path d [] v = Inl IndexError"
| "set_path d [p] v = Inr (dict_set d p v)"
| "set_path d (p # q # ps) v =
     (case map_of d p of
        None \<Rightarrow>
          (case set_path [] (q # ps) v of
             Inl e \<Rightarrow> Inl e
           | Inr sub \<Rightarrow> Inr (dict_set d p (VDict sub)))
      | Some (VDict sub0) \<Rightarrow>
          (case set_path sub0 (q # ps) v of
             Inl e \<Rightarrow> Inl e
           | Inr sub \<Rightarrow> Inr (dict_set d p (VDict sub)))
      | Some _ \<Rightarrow> Inl TypeError)"

fun unflatten_from :: "dict \<Rightarrow> dict \<Rightarrow> error + dict" where
  "unflatten_from unflattened_dictionary [] = Inr unflattened_dictionary"
| "unflatten_from unflattened_dictionary ((key, v) # items) =
     (case set_path unflattened_dictionary (split_dot key) v of
        Inl e \<Rightarrow> Inl e
      | Inr d \<Rightarrow> unflatten_from d items)"

definition unflatten :: "dict \<Rightarrow> error + dict" where
  "unflatten dictionary = unflatten_from [] dictionary"


section \<open>Equality and comparison of values\<close>

text \<open>
  \<^verbatim>\<open>a == b\<close>: records are equal when they have the same keys with equal values, in any
  order; lists are equal elementwise. \<open>dict_sub a b\<close> says that every item of \<open>a\<close> has an
  equal item in \<open>b\<close>.
\<close>

fun py_eq :: "pyval \<Rightarrow> pyval \<Rightarrow> bool"
  and py_eq_list :: "pyval list \<Rightarrow> pyval list \<Rightarrow> bool"
  and dict_sub :: "dict \<Rightarrow> dict \<Rightarrow> bool" where
  "py_eq VNone b = (b = VNone)"
| "py_eq (VInt i) b = (b = VInt i)"
| "py_eq (VStr s) b = (b = VStr s)"
| "py_eq (VList xs) b = (case b of VList ys \<Rightarrow> py_eq_list xs ys | _ \<Rightarrow> False)"
| "py_eq (VDict d) b =
     (case b of VDict d' \<Rightarrow> length d = length d' \<and> dict_sub d d' | _ \<Rightarrow> False)"
| "py_eq_list [] ys = (ys = [])"
| "py_eq_list (x # xs) ys =
     (case ys of [] \<Rightarrow> False | y # ys' \<Rightarrow> py_eq x y \<and> py_eq_list xs ys')"
| "dict_sub [] d' = True"
| "dict_sub ((k, v) # d) d' =
     (case map_of d' k of None \<Rightarrow> False | Some v' \<Rightarrow> py_eq v v' \<and> dict_sub d d')"

text \<open>
  The ordering operators used by the query language. Integers compare with integers,
  strings with strings, lists with lists (at the first pair of unequal elements, else by
  length); every other pairing raises \<^verbatim>\<open>TypeError\<close>.
\<close>

datatype cmpop = Ge | Gt | Le

fun py_compare :: "cmpop \<Rightarrow> pyval \<Rightarrow> pyval \<Rightarrow> error + bool"
  and py_compare_list :: "cmpop \<Rightarrow> pyval list \<Rightarrow> pyval list \<Rightarrow> error + bool" where
  "py_compare opr (VInt a) b =
     (case b of
        VInt b' \<Rightarrow> Inr (case opr of Ge \<Rightarrow> b' \<le> a | Gt \<Rightarrow> b' < a | Le \<Rightarrow> a \<le> b')
      | _ \<Rightarrow> Inl TypeError)"
| "py_compare opr (VStr a) b =
     (case b of
        VStr b' \<Rightarrow>
          Inr (case opr of Ge \<Rightarrow> \<not> str_less a b' | Gt \<Rightarrow> str_less b' a | Le \<Rightarrow> \<not> str_less b' a)
      | _ \<Rightarrow> Inl TypeError)"
| "py_compare opr (VList a) b =
     (case b of VList b' \<Rightarrow> py_compare_list opr a b' | _ \<Rightarrow> Inl TypeError)"
| "py_compare opr VNone b = Inl TypeError"
| "py_compare opr (VDict a) b = Inl TypeError"
| "py_compare_list opr [] ys =
     (case ys of [] \<Rightarrow> Inr (opr \<noteq> Gt) | y # ys' \<Rightarrow> Inr (opr = Le))"
| "py_compare_list opr (x # xs) ys =
     (case ys of
        [] \<Rightarrow> Inr (opr \<noteq> Le)
      | y # ys' \<Rightarrow> if py_eq x y then py_compare_list opr xs ys' else py_compare opr x y)"

text \<open>Lists and records cannot be hashed, so they cannot be looked up in a \<^verbatim>\<open>set\<close>.\<close>

fun hashable :: "pyval \<Rightarrow> bool" where
  "hashable (VList _) = False"
| "hashable (VDict _) = False"
| "hashable _ = True"

text \<open>Truth value of a value in a condition.\<close>

fun truthy :: "pyval \<Rightarrow> bool" where
  "truthy VNone = False"
| "truthy (VInt i) = (i \<noteq> 0)"
| "truthy (VStr s) = (s \<noteq> [])"
| "truthy (VList xs) = (xs \<noteq> [])"
| "truthy (VDict d) = (d \<noteq> [])"

section \<open>\<^verbatim>\<open>EphemeralDocument\<close>\<close>

text \<open>A document is its \<^verbatim>\<open>_data\<close>: the flattened record.\<close>

text \<open>\<^verbatim>\<open>"$in": (lambda a, b: a in b)\<close>\<close>

fun op_in :: "pyval \<Rightarrow> pyval \<Rightarrow> error + bool" where
  "op_in a (VList ys) = Inr (list_ex (\<lambda>y. py_eq y a) ys)"
| "op_in a (VStr s) = (case a of VStr t \<Rightarrow> Inr (str_contains s t) | _ \<Rightarrow> Inl TypeError)"
| "op_in a (VDict d) =
     (if hashable a then Inr (case a of VStr t \<Rightarrow> t \<in> set (map fst d) | _ \<Rightarrow> False)
      else Inl TypeError)"
| "op_in a VNone = Inl TypeError"
| "op_in a (VInt i) = Inl TypeError"

text \<open>\<^verbatim>\<open>lambda a, b: a is not None and a >= b\<close>, and the same for \<^verbatim>\<open>>\<close> and \<^verbatim>\<open><=\<close>.\<close>

definition op_cmp :: "cmpop \<Rightarrow> pyval \<Rightarrow> pyval \<Rightarrow> error + bool" where
  "op_cmp opr a b = (if a = VNone then Inr False else py_compare opr a b)"

definition operators :: "string \<Rightarrow> (pyval \<Rightarrow> pyval \<Rightarrow> error + bool) option" where
  "operators name =
     (if name = ''$in'' then Some op_in
      else if name = ''$gte'' then Some (op_cmp Ge)
      else if name = ''$gt'' then Some (op_cmp Gt)
      else if name = ''$lte'' then Some (op_cmp Le)
      else None)"

definition is_operator :: "string \<Rightarrow> bool" where
  "is_operator key = startswith (last (split_dot key)) ''$''"

definition get_key_operator ::
  "string \<Rightarrow> error + (string \<times> (pyval \<Rightarrow> pyval \<Rightarrow> error + bool))" where
  "get_key_operator key =
     (let operator = last (split_dot key);
          key' = join_dot (butlast (split_dot key))
      in case operators operator of
           None \<Rightarrow> Inl UnsupportedOperator
         | Some f \<Rightarrow> Inr (key', f))"

definition match_key :: "dict \<Rightarrow> string \<Rightarrow> pyval \<Rightarrow> error + bool" where
  "match_key data key v =
     (if is_operator key then
        (case get_key_operator key of
           Inl e \<Rightarrow> Inl e
         | Inr (key', operator) \<Rightarrow>
             (case map_of data key' of
                None \<Rightarrow> Inr False
              | Some a \<Rightarrow> operator a v))
      else Inr (case map_of data key of None \<Rightarrow> False | Some a \<Rightarrow> py_eq a v))"

fun match_items :: "dict \<Rightarrow> dict \<Rightarrow> error + bool" where
  "match_items data [] = Inr True"
| "match_items data ((key, v) # items) =
     (case match_key data key v of
        Inl e \<Rightarrow> Inl e
      | Inr b \<Rightarrow> if \<not> b then Inr False else match_items data items)"

text \<open>\<^verbatim>\<open>match(query=None)\<close>\<close>

definition match :: "dict \<Rightarrow> dict option \<Rightarrow> error + bool" where
  "match data query =
     (case query of
        None \<Rightarrow> Inr True
      | Some q \<Rightarrow> if q = [] then Inr True else match_items data (flatten q))"

text \<open>\<^verbatim>\<open>sum(keys[key] for key in keys_without_id)\<close>, starting from the integer 0.\<close>

fun py_sum :: "int \<Rightarrow> pyval list \<Rightarrow> error + int" where
  "py_sum acc [] = Inr acc"
| "py_sum acc (v # vs) = (case v of VInt i \<Rightarrow> py_sum (acc + i) vs | _ \<Rightarrow> Inl TypeError)"

text \<open>\<^verbatim>\<open>d.get(k, default)\<close> and \<^verbatim>\<open>d.setdefault(k, default)\<close>. In \<open>validate_keys\<close>,
  \<open>keys_without_id\<close> holds the items (key and \<^verbatim>\<open>keys[key]\<close>) rather than the keys alone.\<close>

definition dict_get_default :: "dict \<Rightarrow> string \<Rightarrow> pyval \<Rightarrow> pyval" where
  "dict_get_default d k dflt = (case map_of d k of None \<Rightarrow> dflt | Some v \<Rightarrow> v)"

definition setdefault :: "dict \<Rightarrow> string \<Rightarrow> pyval \<Rightarrow> dict" where
  "setdefault d k dflt = (case map_of d k of None \<Rightarrow> dict_set d k dflt | Some v \<Rightarrow> d)"

definition validate_keys :: "dict \<Rightarrow> dict \<Rightarrow> error + dict" where
  "validate_keys data keys =
     (if length keys = 1 \<and> py_eq (dict_get_default keys ''_id'' (VInt 0)) (VInt 1) then Inr keys
      else
        (let keys_without_id = filter (\<lambda>kv. fst kv \<noteq> ''_id'') keys
         in case py_sum 0 (map snd keys_without_id) of
              Inl e \<Rightarrow> Inl e
            | Inr n_keys \<Rightarrow>
                if n_keys \<noteq> 0 \<and> n_keys \<noteq> int (length keys_without_id) then Inl InvalidSelection
                else
                  (let keys' =
                     (if n_keys = 0 then
                        dict_set
                          (dict_update []
                             (map (\<lambda>key. (key, VInt 1))
                                (filter (\<lambda>key. map_of keys key = None) (map fst data))))
                          ''_id'' (dict_get_default keys ''_id'' (VInt 1))
                      else keys)
                   in Inr (setdefault keys' ''_id'' (VInt 1)))))"

text \<open>
  \<^verbatim>\<open>key_is_match\<close>, local to \<^verbatim>\<open>select\<close>. The subscript \<^verbatim>\<open>[0]\<close> raises \<^verbatim>\<open>IndexError\<close>
  when removing the selected key leaves the empty string.
\<close>

definition key_is_match :: "string \<Rightarrow> string \<Rightarrow> error + bool" where
  "key_is_match key selected_key =
     (if key = selected_key then Inr True
      else if startswith key selected_key then
        (case remove_all key selected_key of
           [] \<Rightarrow> Inl IndexError
         | c # _ \<Rightarrow> Inr (c = CHR ''.''))
      else Inr False)"

fun select_keys :: "string \<Rightarrow> pyval \<Rightarrow> dict \<Rightarrow> dict \<Rightarrow> error + dict" where
  "select_keys key v [] selection = Inr selection"
| "select_keys key v ((selected_key, include) # keys) selection =
     (if truthy include then
        (case key_is_match key selected_key of
           Inl e \<Rightarrow> Inl e
         | Inr b \<Rightarrow> select_keys key v keys (if b then dict_set selection key v else selection))
      else select_keys key v keys selection)"

fun select_items :: "dict \<Rightarrow> dict \<Rightarrow> dict \<Rightarrow> error + dict" where
  "select_items [] keys selection = Inr selection"
| "select_items ((key, v) # items) keys selection =
     (case select_keys key v keys selection of
        Inl e \<Rightarrow> Inl e
      | Inr selection' \<Rightarrow> select_items items keys selection')"

text \<open>\<^verbatim>\<open>select(keys)\<close>; \<^verbatim>\<open>not keys\<close> holds for \<^verbatim>\<open>None\<close> and for the empty record.\<close>

definition select :: "dict \<Rightarrow> dict option \<Rightarrow> error + dict" where
  "select data keys =
     (case keys of
        None \<Rightarrow> unflatten data
      | Some ks \<Rightarrow>
          if ks = [] then unflatten data
          else
            (case validate_keys data (flatten ks) of
               Inl e \<Rightarrow> Inl e
             | Inr keys' \<Rightarrow>
                 (case select_items data keys' [] of
                    Inl e \<Rightarrow> Inl e
                  | Inr selection \<Rightarrow> unflatten selection)))"

text \<open>
  \<^verbatim>\<open>update(data)\<close>: \<^verbatim>\<open>data.get("$set", data)\<close> is flattened and merged. A \<^verbatim>\<open>$set\<close> that
  is not a record has no \<^verbatim>\<open>popitem\<close>.
\<close>

definition doc_update :: "dict \<Rightarrow> dict \<Rightarrow> error + dict" where
  "doc_update data upd =
     (case map_of upd ''$set'' of
        None \<Rightarrow> Inr (dict_update data (flatten upd))
      | Some (VDict s) \<Rightarrow> Inr (dict_update data (flatten s))
      | Some _ \<Rightarrow> Inl AttributeError)"


section \<open>\<^verbatim>\<open>EphemeralCollection\<close>\<close>

text \<open>
  \<^verbatim>\<open>_documents\<close> is the list of documents in insertion order; \<^verbatim>\<open>_indexes\<close> maps the tuple
  of field names of a unique index to the set of value tuples seen for it.
\<close>

record collection =
  documents :: "dict list"
  indexes :: "(string list \<times> pyval list set) list"

text \<open>\<^verbatim>\<open>tuple(document[key] for key in index)\<close>\<close>

fun doc_values :: "dict \<Rightarrow> string list \<Rightarrow> error + pyval list" where
  "doc_values data [] = Inr []"
| "doc_values data (key # index) =
     (case map_of data key of
        None \<Rightarrow> Inl KeyError
      | Some v \<Rightarrow>
          (case doc_values data index of
             Inl e \<Rightarrow> Inl e
           | Inr vs \<Rightarrow> Inr (v # vs)))"

text \<open>\<^verbatim>\<open>_validate_index(document, indexes)\<close>; membership in a set hashes the tuple first.\<close>

fun validate_index :: "collection \<Rightarrow> dict \<Rightarrow> string list list \<Rightarrow> error + unit" where
  "validate_index c data [] = Inr ()"
| "validate_index c data (index # rest) =
     (case doc_values data index of
        Inl e \<Rightarrow> Inl e
      | Inr document_values \<Rightarrow>
          (case map_of (indexes c) index of
             None \<Rightarrow> Inl KeyError
           | Some vals \<Rightarrow>
               if \<not> list_all hashable document_values then Inl TypeError
               else if document_values \<in> vals then Inl DuplicateKeyError
               else validate_index c data rest))"

text \<open>
  \<^verbatim>\<open>_register_keys(document)\<close>: the value tuple goes into the set of every index, in the
  order of \<^verbatim>\<open>_indexes\<close>; an exception leaves the sets already reached updated.
\<close>

fun register_keys ::
  "dict \<Rightarrow> (string list \<times> pyval list set) list \<Rightarrow>
     error option \<times> (string list \<times> pyval list set) list" where
  "register_keys data [] = (None, [])"
| "register_keys data ((index, vals) # rest) =
     (case doc_values data index of
        Inl e \<Rightarrow> (Some e, (index, vals) # rest)
      | Inr document_values \<Rightarrow>
          if \<not> list_all hashable document_values then (Some TypeError, (index, vals) # rest)
          else
            (case register_keys data rest of
               (r, rest') \<Rightarrow> (r, (index, insert document_values vals) # rest')))"

text \<open>
  \<^verbatim>\<open>create_index(keys, unique=False)\<close>. \<open>keys\<close> is one field name or a list of
  (field, order) pairs; the order is dropped.
\<close>

datatype keyspec = KeyName string | KeyList "(string \<times> pyval) list"

fun index_documents ::
  "string list \<Rightarrow> dict list \<Rightarrow> pyval list set \<Rightarrow> error option \<times> pyval list set" where
  "index_documents keys [] vals = (None, vals)"
| "index_documents keys (document # rest) vals =
     (case doc_values document keys of
        Inl e \<Rightarrow> (Some e, vals)
      | Inr document_values \<Rightarrow>
          if \<not> list_all hashable document_values then (Some TypeError, vals)
          else if document_values \<in> vals then (Some DuplicateKeyError, vals)
          else index_documents keys rest (insert document_values vals))"

definition create_index :: "collection \<Rightarrow> keyspec \<Rightarrow> bool \<Rightarrow> error option \<times> collection" where
  "create_index c keys unique =
     (let keys' = (case keys of KeyName k \<Rightarrow> [k] | KeyList ks \<Rightarrow> map fst ks)
      in if unique \<and> map_of (indexes c) keys' = None then
           (case index_documents keys' (documents c) {} of
              (r, vals) \<Rightarrow> (r, c\<lparr>indexes := indexes c @ [(keys', vals)]\<rparr>))
         else (None, c))"

text \<open>\<^verbatim>\<open>__init__\<close>: no documents, and the unique index on \<^verbatim>\<open>_id\<close>.\<close>

definition new_collection :: collection where
  "new_collection = snd (create_index \<lparr>documents = [], indexes = []\<rparr> (KeyName ''_id'') True)"

text \<open>\<^verbatim>\<open>find(query=None, selection=None)\<close>\<close>

fun find_loop :: "dict list \<Rightarrow> dict option \<Rightarrow> dict option \<Rightarrow> error + dict list" where
  "find_loop [] query selection = Inr []"
| "find_loop (document # rest) query selection =
     (case match document query of
        Inl e \<Rightarrow> Inl e
      | Inr b \<Rightarrow>
          if b then
            (case select document selection of
               Inl e \<Rightarrow> Inl e
             | Inr r \<Rightarrow>
                 (case find_loop rest query selection of
                    Inl e \<Rightarrow> Inl e
                  | Inr found_documents \<Rightarrow> Inr (r # found_documents)))
          else find_loop rest query selection)"

definition find :: "collection \<Rightarrow> dict option \<Rightarrow> dict option \<Rightarrow> error + dict list" where
  "find c query selection = find_loop (documents c) query selection"

text \<open>
  \<^verbatim>\<open>_get_new_id\<close>: \<^verbatim>\<open>max(d['_id'] for d in self._documents) + 1\<close>. \<^verbatim>\<open>max\<close> keeps the first
  greatest element, comparing each element with \<^verbatim>\<open>>\<close>.
\<close>

fun py_max :: "pyval \<Rightarrow> dict list \<Rightarrow> error + pyval" where
  "py_max m [] = Inr m"
| "py_max m (d # ds) =
     (case map_of d ''_id'' of
        None \<Rightarrow> Inl KeyError
      | Some v \<Rightarrow>
          (case py_compare Gt v m of
             Inl e \<Rightarrow> Inl e
           | Inr b \<Rightarrow> py_max (if b then v else m) ds))"

fun py_add1 :: "pyval \<Rightarrow> error + pyval" where
  "py_add1 (VInt i) = Inr (VInt (i + 1))"
| "py_add1 _ = Inl TypeError"

definition get_new_id :: "collection \<Rightarrow> error + pyval" where
  "get_new_id c =
     (case documents c of
        [] \<Rightarrow> Inr (VInt 1)
      | d # ds \<Rightarrow>
          (case map_of d ''_id'' of
             None \<Rightarrow> Inl KeyError
           | Some v \<Rightarrow>
               (case py_max v ds of
                  Inl e \<Rightarrow> Inl e
                | Inr m \<Rightarrow> py_add1 m)))"

text \<open>
  \<^verbatim>\<open>insert_many(documents)\<close>. The statement \<^verbatim>\<open>document['_id'] = self._get_new_id()\<close> writes
  into the record the caller passed, so the model returns the caller's records as the call
  leaves them, next to the result and the collection. \<open>assign_id\<close> is that statement with
  its guard; the records of one batch are distinct objects.
\<close>

definition assign_id :: "collection \<Rightarrow> dict \<Rightarrow> error + dict" where
  "assign_id c document =
     (if map_of document ''_id'' = None then
        (case get_new_id c of
           Inl e \<Rightarrow> Inl e
         | Inr i \<Rightarrow> Inr (dict_set document ''_id'' i))
      else Inr document)"

fun insert_loop :: "collection \<Rightarrow> dict list \<Rightarrow> error option \<times> collection \<times> dict list" where
  "insert_loop c [] = (None, c, [])"
| "insert_loop c (document # rest) =
     (case assign_id c document of
        Inl e \<Rightarrow> (Some e, c, document # rest)
      | Inr document' \<Rightarrow>
          (let ephemeral_document = flatten document'
           in case validate_index c ephemeral_document (map fst (indexes c)) of
                Inl e \<Rightarrow> (Some e, c, document' # rest)
              | Inr _ \<Rightarrow>
                  (case register_keys ephemeral_document (indexes c) of
                     (Some e, idx) \<Rightarrow>
                       (Some e,
                        c\<lparr>documents := documents c @ [ephemeral_document], indexes := idx\<rparr>,
                        document' # rest)
                   | (None, idx) \<Rightarrow>
                       (case insert_loop
                               (c\<lparr>documents := documents c @ [ephemeral_document],
                                  indexes := idx\<rparr>) rest of
                          (r, c', rest') \<Rightarrow> (r, c', document' # rest')))))"

definition insert_many :: "collection \<Rightarrow> dict list \<Rightarrow> (error + nat) \<times> collection \<times> dict list" where
  "insert_many c docs =
     (case insert_loop c docs of
        (None, c', docs') \<Rightarrow> (Inr (length docs), c', docs')
      | (Some e, c', docs') \<Rightarrow> (Inl e, c', docs'))"

text \<open>
  \<^verbatim>\<open>update_many(query, update)\<close>: documents are updated in place, so an exception leaves
  the documents already reached updated.
\<close>

fun update_loop ::
  "dict list \<Rightarrow> dict option \<Rightarrow> dict \<Rightarrow> error option \<times> dict list \<times> nat" where
  "update_loop [] query upd = (None, [], 0)"
| "update_loop (document # rest) query upd =
     (case match document query of
        Inl e \<Rightarrow> (Some e, document # rest, 0)
      | Inr b \<Rightarrow>
          if b then
            (case doc_update document upd of
               Inl e \<Rightarrow> (Some e, document # rest, 0)
             | Inr document' \<Rightarrow>
                 (case update_loop rest query upd of
                    (r, rest', updates) \<Rightarrow> (r, document' # rest', updates + 1)))
          else
            (case update_loop rest query upd of
               (r, rest', updates) \<Rightarrow> (r, document # rest', updates)))"

definition update_many :: "collection \<Rightarrow> dict option \<Rightarrow> dict \<Rightarrow> (error + nat) \<times> collection" where
  "update_many c query upd =
     (case update_loop (documents c) query upd of
        (None, docs, updates) \<Rightarrow> (Inr updates, c\<lparr>documents := docs\<rparr>)
      | (Some e, docs, updates) \<Rightarrow> (Inl e, c\<lparr>documents := docs\<rparr>))"

text \<open>\<^verbatim>\<open>count(query=None)\<close>\<close>

definition count :: "collection \<Rightarrow> dict option \<Rightarrow> error + nat" where
  "count c query =
     (case find c query None of Inl e \<Rightarrow> Inl e | Inr found \<Rightarrow> Inr (length found))"

text \<open>
  \<^verbatim>\<open>delete_many(query=None)\<close>: \<^verbatim>\<open>_documents\<close> is replaced only after the loop, so an
  exception leaves the collection as it was.
\<close>

fun delete_loop :: "dict list \<Rightarrow> dict option \<Rightarrow> error + (dict list \<times> nat)" where
  "delete_loop [] query = Inr ([], 0)"
| "delete_loop (document # rest) query =
     (case match document query of
        Inl e \<Rightarrow> Inl e
      | Inr b \<Rightarrow>
          (case delete_loop rest query of
             Inl e \<Rightarrow> Inl e
           | Inr (retained_documents, deleted) \<Rightarrow>
               if \<not> b then Inr (document # retained_documents, deleted)
               else Inr (retained_documents, deleted + 1)))"

definition delete_many :: "collection \<Rightarrow> dict option \<Rightarrow> (error + nat) \<times> collection" where
  "delete_many c query =
     (case delete_loop (documents c) query of
        Inl e \<Rightarrow> (Inl e, c)
      | Inr (retained_documents, deleted) \<Rightarrow>
          (Inr deleted, c\<lparr>documents := retained_documents\<rparr>))"

text \<open>\<^verbatim>\<open>drop()\<close>\<close>

definition drop_collection :: "collection \<Rightarrow> collection" where
  "drop_collection c = c\<lparr>documents := [], indexes := []\<rparr>"

section \<open>\<^verbatim>\<open>EphemeralDB\<close>\<close>

text \<open>
  \<^verbatim>\<open>_db\<close> is a \<^verbatim>\<open>defaultdict(EphemeralCollection)\<close>: every name has a collection, a new one
  until something is written to it.
\<close>

type_synonym db = "string \<Rightarrow> collection"

definition initiate_connection :: db where
  "initiate_connection = (\<lambda>name. new_collection)"

definition ensure_index :: "db \<Rightarrow> string \<Rightarrow> keyspec \<Rightarrow> bool \<Rightarrow> error option \<times> db" where
  "ensure_index d collection_name keys unique =
     (case create_index (d collection_name) keys unique of
        (r, c) \<Rightarrow> (r, d(collection_name := c)))"

text \<open>
  \<^verbatim>\<open>write(collection_name, data, query=None)\<close>, named \<open>db_write\<close> here (\<open>write\<close> is
  reserved): \<open>data\<close> is one record or a list of records.
  The caller's records, which an insert may change, are not returned here.
\<close>

datatype write_data = One dict | Many "dict list"

definition db_write :: "db \<Rightarrow> string \<Rightarrow> write_data \<Rightarrow> dict option \<Rightarrow> (error + nat) \<times> db" where
  "db_write d collection_name data query =
     (let dbcollection = d collection_name
      in case query of
           None \<Rightarrow>
             (case insert_many dbcollection (case data of One r \<Rightarrow> [r] | Many rs \<Rightarrow> rs) of
                (r, c, _) \<Rightarrow> (r, d(collection_name := c)))
         | Some q \<Rightarrow>
             (let update_data =
                    [(''$set'', case data of One r \<Rightarrow> VDict r | Many rs \<Rightarrow> VList (map VDict rs))]
              in case update_many dbcollection (Some q) update_data of
                   (r, c) \<Rightarrow> (r, d(collection_name := c))))"

definition read :: "db \<Rightarrow> string \<Rightarrow> dict option \<Rightarrow> dict option \<Rightarrow> error + dict list" where
  "read d collection_name query selection = find (d collection_name) query selection"

text \<open>
  \<^verbatim>\<open>read_and_write(collection_name, query, data, selection=None)\<close>. The result \<open>None\<close> is
  Python's \<^verbatim>\<open>None\<close>. The body never mentions \<open>selection\<close>: both reads are
  \<^verbatim>\<open>self.read(collection_name, ...)\<close> with the default selection.
\<close>

definition read_and_write ::
  "db \<Rightarrow> string \<Rightarrow> dict option \<Rightarrow> write_data \<Rightarrow> dict option \<Rightarrow> (error + dict option) \<times> db" where
  "read_and_write d collection_name query data selection =
     (case read d collection_name query None of
        Inl e \<Rightarrow> (Inl e, d)
      | Inr dbdoc \<Rightarrow>
          (case dbdoc of
             [] \<Rightarrow> (Inr None, d)
           | first # _ \<Rightarrow>
               (case map_of first ''_id'' of
                  None \<Rightarrow> (Inl KeyError, d)
                | Some found_id \<Rightarrow>
                    (let id_query = [(''_id'', found_id)]
                     in case db_write d collection_name data (Some id_query) of
                          (Inl e, d') \<Rightarrow> (Inl e, d')
                        | (Inr _, d') \<Rightarrow>
                            (case read d' collection_name (Some id_query) None of
                               Inl e \<Rightarrow> (Inl e, d')
                             | Inr [] \<Rightarrow> (Inl IndexError, d')
                             | Inr (r # _) \<Rightarrow> (Inr (Some r), d'))))))"

definition db_count :: "db \<Rightarrow> string \<Rightarrow> dict option \<Rightarrow> error + nat" where
  "db_count d collection_name query = count (d collection_name) query"

definition remove :: "db \<Rightarrow> string \<Rightarrow> dict option \<Rightarrow> (error + nat) \<times> db" where
  "remove d collection_name query =
     (case delete_many (d collection_name) query of
        (r, c) \<Rightarrow> (r, d(collection_name := c)))"


text \<open>
  What \<^verbatim>\<open>insert_many\<close> does to a record of the caller: a record without \<^verbatim>\<open>_id\<close> gets an
  integer \<^verbatim>\<open>_id\<close> as its last item, a record with \<^verbatim>\<open>_id\<close> is left as it is.
\<close>

definition assigned :: "dict \<Rightarrow> dict \<Rightarrow> bool" where
  "assigned document document' =
     (if map_of document ''_id'' = None then (\<exists>i. document' = document @ [(''_id'', VInt i)])
      else document' = document)"

text \<open>
  A flattened projection mixes 0 and 1 when a field other than \<^verbatim>\<open>_id\<close> has 0 and a field
  other than \<^verbatim>\<open>_id\<close> has 1.
\<close>

definition mixed :: "dict \<Rightarrow> bool" where
  "mixed keys =
     (\<exists>k0 k1. k0 \<noteq> ''_id'' \<and> k1 \<noteq> ''_id'' \<and>
        (k0, VInt 0) \<in> set keys \<and> (k1, VInt 1) \<in> set keys)"

section \<open>Properties of the codec\<close>

subsection \<open>The keys of a flattened record\<close>

lemma keys_dict_set: "fst ` set (dict_set d k v) = insert k (fst ` set d)"
  by (induction d) force+

lemma distinct_dict_set: "distinct (map fst d) \<Longrightarrow> distinct (map fst (dict_set d k v))"
proof (induction d)
  case Nil
  then show ?case by simp
next
  case (Cons kv d)
  then show ?case
    using keys_dict_set [of d k v] by (cases kv) auto
qed

lemma distinct_dict_del: "distinct (map fst d) \<Longrightarrow> distinct (map fst (dict_del d k))"
  by (simp add: dict_del_def distinct_map_filter)

lemma keys_dict_del: "fst ` set (dict_del d k) = fst ` set d - {k}"
  by (auto simp: dict_del_def)

lemma distinct_rename_step:
  "distinct (map fst d) \<Longrightarrow> distinct (map fst (rename_step key k d))"
  by (simp add: rename_step_def distinct_dict_set distinct_dict_del split: option.splits)

lemma keys_rename_step:
  "k' \<in> fst ` set d \<Longrightarrow> k' \<noteq> k \<Longrightarrow> k' \<in> fst ` set (rename_step key k d)"
  by (auto simp: rename_step_def keys_dict_set keys_dict_del split: option.splits)

lemma distinct_dict_update:
  "distinct (map fst a) \<Longrightarrow> distinct (map fst (dict_update a b))"
  unfolding dict_update_def
  by (induction b arbitrary: a) (simp_all add: distinct_dict_set)

lemma distinct_fold_rename:
  "distinct (map fst d) \<Longrightarrow> distinct (map fst (fold (rename_step key) ks d))"
  by (induction ks arbitrary: d) (simp_all add: distinct_rename_step)

lemma distinct_flatten: "distinct (map fst (flatten d))"
proof (induction d rule: flatten.induct)
  case (1 dictionary)
  show ?case
  proof (cases "dictionary = []")
    case True
    then show ?thesis by (simp add: flatten.simps)
  next
    case False
    have one: "distinct (map fst [(fst (last dictionary), snd (last dictionary))])" by simp
    show ?thesis
    proof (cases "snd (last dictionary)")
      case (VDict sub)
      show ?thesis
      proof (cases "sub = []")
        case True
        with False VDict distinct_dict_update [OF one] show ?thesis
          by (subst flatten.simps) simp
      next
        case ne: False
        from "1.IH" False VDict ne have "distinct (map fst (flatten sub))" by blast
        then have "distinct (map fst (rename_keys (fst (last dictionary)) (flatten sub)))"
          unfolding rename_keys_def by (rule distinct_fold_rename)
        with False VDict ne show ?thesis
          by (subst flatten.simps) (simp add: distinct_dict_update)
      qed
    qed (use False distinct_dict_update [OF one] in \<open>subst flatten.simps, simp\<close>)+
  qed
qed

text \<open>
  The \<^verbatim>\<open>pop\<close> of the renaming loop always finds its key: a key of the snapshot that the
  loop has not reached yet is still a key of the dictionary.
\<close>

lemma rename_pop_defined:
  assumes "distinct (ks1 @ k # ks2)" "k \<in> fst ` set d"
  shows "map_of (fold (rename_step key) ks1 d) k \<noteq> None"
proof -
  have "k \<in> fst ` set (fold (rename_step key) ks1 d)"
    using assms
  proof (induction ks1 arbitrary: d)
    case Nil
    then show ?case by simp
  next
    case (Cons k1 ks1)
    from Cons.prems have "k \<noteq> k1" by auto
    with Cons.prems have "k \<in> fst ` set (rename_step key k1 d)"
      by (simp add: keys_rename_step)
    with Cons show ?case by simp
  qed
  then show ?thesis by (simp add: map_of_eq_None_iff)
qed

lemma rename_keys_pop_defined:
  assumes "map fst (flatten sub) = ks1 @ k # ks2"
  shows "map_of (fold (rename_step key) ks1 (flatten sub)) k \<noteq> None"
proof -
  from distinct_flatten [of sub] assms have "distinct (ks1 @ k # ks2)" by simp
  moreover from assms have "k \<in> fst ` set (flatten sub)"
    by (metis in_set_conv_decomp set_map)
  ultimately show ?thesis by (rule rename_pop_defined)
qed

text \<open>
  C2. The claim: for every nested record \<open>r\<close> whose keys contain no dot,
  \<open>flatten (unflatten (flatten r))\<close> equals \<open>flatten r\<close>. The renaming loop of
  \<^verbatim>\<open>__flatten\<close> breaks it. For \<^verbatim>\<open>r = {"a": {"b": 1, "a": {"b": 2}}}\<close> the first flatten is
  right, \<^verbatim>\<open>{"a.a.b": 2, "a.b": 1}\<close>, and unflatten gives
  \<^verbatim>\<open>{"a": {"a": {"b": 2}, "b": 1}}\<close>. Flattening that record renames the keys of
  \<^verbatim>\<open>{"b": 1, "a.b": 2}\<close> in place: \<^verbatim>\<open>"b"\<close> becomes \<^verbatim>\<open>"a.b"\<close> and overwrites the entry not
  yet renamed, which then moves to \<^verbatim>\<open>"a.a.b"\<close> with the wrong value. The result
  \<^verbatim>\<open>{"a.a.b": 1}\<close> has lost a field.
\<close>

theorem flatten_unflatten_flatten_loses_field:
  "flatten [(''a'', VDict [(''b'', VInt 1), (''a'', VDict [(''b'', VInt 2)])])]
     = [(''a.a.b'', VInt 2), (''a.b'', VInt 1)]
   \<and> unflatten [(''a.a.b'', VInt 2), (''a.b'', VInt 1)]
     = Inr [(''a'', VDict [(''a'', VDict [(''b'', VInt 2)]), (''b'', VInt 1)])]
   \<and> flatten [(''a'', VDict [(''a'', VDict [(''b'', VInt 2)]), (''b'', VInt 1)])]
     = [(''a.a.b'', VInt 1)]"
  by code_simp

subsection \<open>\<^verbatim>\<open>_unflatten\<close> on overlapping paths\<close>

lemma split_dot_not_Nil: "split_dot s \<noteq> []"
  by (induction s) auto

lemma split_dot_plain: "CHR ''.'' \<notin> set k \<Longrightarrow> split_dot k = [k]"
  by (induction k) auto

lemma split_dot_prefixed:
  "CHR ''.'' \<notin> set k \<Longrightarrow> split_dot (k @ CHR ''.'' # s) = k # split_dot s"
  by (induction k) auto

lemma set_path_empty: "ps \<noteq> [] \<Longrightarrow> \<exists>sub. set_path [] ps v = Inr sub"
proof (induction ps)
  case Nil
  then show ?case by simp
next
  case (Cons p ps)
  then show ?case by (cases ps) auto
qed

lemma set_path_error: "ps \<noteq> [] \<Longrightarrow> set_path d ps v = Inl e \<Longrightarrow> e = TypeError"
proof (induction d ps v rule: set_path.induct)
  case (1 d v)
  then show ?case by simp
next
  case (2 d p v)
  then show ?case by simp
next
  case (3 d p q ps v)
  then show ?case
    by (auto split: option.splits pyval.splits sum.splits)
qed

lemma unflatten_from_error: "unflatten_from acc m = Inl e \<Longrightarrow> e = TypeError"
proof (induction m arbitrary: acc)
  case Nil
  then show ?case by simp
next
  case (Cons kv m)
  obtain k v where kv: "kv = (k, v)" by (cases kv)
  show ?case
  proof (cases "set_path acc (split_dot k) v")
    case (Inl e')
    with Cons.prems kv set_path_error [OF split_dot_not_Nil, of acc k v e'] show ?thesis by simp
  next
    case (Inr d)
    with Cons kv show ?thesis by simp
  qed
qed

lemma unflatten_from_append:
  "unflatten_from acc (m1 @ m2) =
     (case unflatten_from acc m1 of Inl e \<Rightarrow> Inl e | Inr a \<Rightarrow> unflatten_from a m2)"
  by (induction m1 arbitrary: acc) (auto split: sum.splits)

lemma set_path_into_leaf:
  assumes "map_of u k = Some x" "\<forall>d. x \<noteq> VDict d" "ps \<noteq> []"
  shows "set_path u (k # ps) w = Inl TypeError"
  using assms by (cases ps; cases x) auto

text \<open>
  The claim C9 says that \<^verbatim>\<open>_unflatten\<close> raises an internal-consistency error when one key
  of the flat map is a strict dotted prefix of another. It has no such check: on
  \<^verbatim>\<open>{"a.b": 1, "a": 2}\<close> the second item replaces the record built for the first, and the
  result is \<^verbatim>\<open>{"a": 2}\<close>.
\<close>

theorem unflatten_prefix_conflict_counterexample:
  "unflatten [(''a.b'', VInt 1), (''a'', VInt 2)] = Inr [(''a'', VInt 2)]"
  by code_simp

text \<open>
  C9, as the code has it. For a key \<open>k\<close> without a dot: stored after any items that
  unflatten to \<open>u\<close>, the item \<open>k\<close> never fails and replaces whatever \<open>u\<close> holds under \<open>k\<close>;
  a later key \<open>k.s\<close> fails with \<^verbatim>\<open>TypeError\<close> when \<open>u\<close> holds under \<open>k\<close> a value that is not
  a record; and \<^verbatim>\<open>TypeError\<close> is the only error \<^verbatim>\<open>_unflatten\<close> ever raises.
\<close>

theorem unflatten_prefix_conflict:
  assumes "CHR ''.'' \<notin> set k"
  shows "(unflatten m = Inr u \<longrightarrow> unflatten (m @ [(k, v)]) = Inr (dict_set u k v))
       \<and> (unflatten m = Inr u \<and> map_of u k = Some x \<and> (\<forall>d. x \<noteq> VDict d) \<longrightarrow>
            unflatten (m @ [(k @ ''.'' @ s, w)]) = Inl TypeError)
       \<and> (unflatten m = Inl e \<longrightarrow> e = TypeError)"
proof (intro conjI impI)
  assume "unflatten m = Inr u"
  then show "unflatten (m @ [(k, v)]) = Inr (dict_set u k v)"
    using assms by (simp add: unflatten_def unflatten_from_append split_dot_plain)
next
  assume a: "unflatten m = Inr u \<and> map_of u k = Some x \<and> (\<forall>d. x \<noteq> VDict d)"
  then have "set_path u (k # split_dot s) w = Inl TypeError"
    using set_path_into_leaf [of u k x "split_dot s" w] split_dot_not_Nil by blast
  with a show "unflatten (m @ [(k @ ''.'' @ s, w)]) = Inl TypeError"
    using assms by (simp add: unflatten_def unflatten_from_append split_dot_prefixed)
next
  assume "unflatten m = Inl e"
  then show "e = TypeError"
    unfolding unflatten_def by (rule unflatten_from_error)
qed

theorem unflatten_prefix_conflict_witness:
  "CHR ''.'' \<notin> set ''a''
   \<and> unflatten [(''a.b'', VInt 1)] = Inr [(''a'', VDict [(''b'', VInt 1)])]
   \<and> unflatten ([(''a.b'', VInt 1)] @ [(''a'', VInt 2)]) = Inr [(''a'', VInt 2)]
   \<and> unflatten [(''a'', VInt 2)] = Inr [(''a'', VInt 2)]
   \<and> unflatten ([(''a'', VInt 2)] @ [(''a'' @ ''.'' @ ''b'', VInt 1)]) = Inl TypeError"
proof -
  have h: "CHR ''.'' \<notin> set ''a''" by simp
  have u1: "unflatten [(''a.b'', VInt 1)] = Inr [(''a'', VDict [(''b'', VInt 1)])]" by code_simp
  have u2: "unflatten [(''a'', VInt 2)] = Inr [(''a'', VInt 2)]" by code_simp
  have m: "map_of [(''a'', VInt 2)] ''a'' = Some (VInt 2)" by simp
  from unflatten_prefix_conflict [OF h, of "[(''a.b'', VInt 1)]" "[(''a'', VDict [(''b'', VInt 1)])]"
      "VInt 2"] u1
  have c1: "unflatten ([(''a.b'', VInt 1)] @ [(''a'', VInt 2)]) = Inr [(''a'', VInt 2)]"
    by simp
  from unflatten_prefix_conflict [OF h, of "[(''a'', VInt 2)]" "[(''a'', VInt 2)]" _ "VInt 2"
      "''b''" "VInt 1"] u2 m
  have c2: "unflatten ([(''a'', VInt 2)] @ [(''a'' @ ''.'' @ ''b'', VInt 1)]) = Inl TypeError"
    by simp
  from h u1 u2 c1 c2 show ?thesis by blast
qed

section \<open>Properties of the document\<close>

lemma key_is_match_error: "key_is_match key sk = Inl e \<Longrightarrow> e = IndexError"
  by (auto simp: key_is_match_def split: if_splits list.splits)

lemma select_keys_error: "select_keys key v keys sel = Inl e \<Longrightarrow> e = IndexError"
proof (induction keys arbitrary: sel)
  case Nil
  then show ?case by simp
next
  case (Cons kv keys)
  obtain sk inc where kv: "kv = (sk, inc)" by (cases kv)
  show ?case
  proof (cases "truthy inc")
    case False
    with Cons kv show ?thesis by simp
  next
    case True
    show ?thesis
    proof (cases "key_is_match key sk")
      case (Inl e')
      with Cons.prems kv True key_is_match_error [of key sk e'] show ?thesis by simp
    next
      case (Inr b)
      with Cons.prems kv True Cons.IH show ?thesis by simp
    qed
  qed
qed

lemma select_items_error: "select_items items keys sel = Inl e \<Longrightarrow> e = IndexError"
proof (induction items arbitrary: sel)
  case Nil
  then show ?case by simp
next
  case (Cons kv items)
  obtain k v where kv: "kv = (k, v)" by (cases kv)
  show ?case
  proof (cases "select_keys k v keys sel")
    case (Inl e')
    with Cons.prems kv select_keys_error [of k v keys sel e'] show ?thesis by simp
  next
    case (Inr sel')
    with Cons.prems kv Cons.IH show ?thesis by simp
  qed
qed

lemma py_sum_flags:
  "list_all (\<lambda>v. v = VInt 0 \<or> v = VInt 1) vs \<Longrightarrow>
   py_sum acc vs = Inr (acc + int (length (filter (\<lambda>v. v = VInt 1) vs)))"
  by (induction vs arbitrary: acc) auto

lemma length_filter_all: "length (filter P xs) = length xs \<longleftrightarrow> list_all P xs"
proof (induction xs)
  case Nil
  then show ?case by simp
next
  case (Cons x xs)
  have le: "length (filter P xs) \<le> length xs" by (rule length_filter_le)
  show ?case
  proof (cases "P x")
    case True
    with Cons show ?thesis by simp
  next
    case False
    from le have "length (filter P xs) \<noteq> Suc (length xs)" by arith
    with False show ?thesis by simp
  qed
qed

lemma length_filter_none: "length (filter P xs) = 0 \<longleftrightarrow> list_all (\<lambda>x. \<not> P x) xs"
  by (induction xs) auto

lemma validate_keys_flags:
  assumes "list_all (\<lambda>kv. snd kv = VInt 0 \<or> snd kv = VInt 1) keys"
  shows "validate_keys data keys = Inl InvalidSelection \<longleftrightarrow> mixed keys"
    and "validate_keys data keys = Inl e \<Longrightarrow> e = InvalidSelection"
proof -
  let ?wo = "filter (\<lambda>kv. fst kv \<noteq> ''_id'') keys"
  let ?n = "length (filter (\<lambda>v. v = VInt 1) (map snd ?wo))"
  from assms have fl: "list_all (\<lambda>v. v = VInt 0 \<or> v = VInt 1) (map snd ?wo)"
    by (auto simp: list_all_iff)
  have s: "py_sum 0 (map snd ?wo) = Inr (int ?n)"
    using py_sum_flags [OF fl, of 0] by simp
  have "?n \<noteq> 0 \<longleftrightarrow> (\<exists>kv\<in>set keys. fst kv \<noteq> ''_id'' \<and> snd kv = VInt 1)"
    by (simp add: filter_empty_conv)
  also have "\<dots> \<longleftrightarrow> (\<exists>k1. k1 \<noteq> ''_id'' \<and> (k1, VInt 1) \<in> set keys)"
    by force
  finally have ne: "?n \<noteq> 0 \<longleftrightarrow> (\<exists>k1. k1 \<noteq> ''_id'' \<and> (k1, VInt 1) \<in> set keys)" .
  have nl: "?n \<noteq> length ?wo \<longleftrightarrow> (\<exists>k0. k0 \<noteq> ''_id'' \<and> (k0, VInt 0) \<in> set keys)"
  proof -
    have "?n = length (map snd ?wo) \<longleftrightarrow> list_all (\<lambda>v. v = VInt 1) (map snd ?wo)"
      by (rule length_filter_all)
    moreover have "list_all (\<lambda>v. v = VInt 1) (map snd ?wo) \<longleftrightarrow>
        \<not> (\<exists>k0. k0 \<noteq> ''_id'' \<and> (k0, VInt 0) \<in> set keys)"
      using assms by (fastforce simp: list_all_iff)
    ultimately show ?thesis by simp
  qed
  have m: "mixed keys \<longleftrightarrow> ?n \<noteq> 0 \<and> ?n \<noteq> length ?wo"
    unfolding mixed_def ne nl by blast
  have single: "\<not> mixed keys"
    if "length keys = 1" "py_eq (dict_get_default keys ''_id'' (VInt 0)) (VInt 1)"
  proof -
    from that(1) obtain k v where kv: "keys = [(k, v)]"
      by (cases keys) (auto simp: length_Suc_conv)
    with that(2) have "k = ''_id''"
      by (auto simp: dict_get_default_def split: if_splits)
    with kv show ?thesis by (auto simp: mixed_def)
  qed
  show "validate_keys data keys = Inl InvalidSelection \<longleftrightarrow> mixed keys"
    using s m single by (auto simp: validate_keys_def Let_def)
  show "validate_keys data keys = Inl e \<Longrightarrow> e = InvalidSelection"
    using s by (auto simp: validate_keys_def Let_def split: if_splits)
qed

text \<open>
  \<^verbatim>\<open>select\<close> also fails on a document whose stored paths overlap, because
  \<^verbatim>\<open>_unflatten\<close> fails on them: after inserting \<^verbatim>\<open>{"a": 5}\<close> and updating with
  \<^verbatim>\<open>{"$set": {"a": {"b": 1}}}\<close> the document holds both \<^verbatim>\<open>a\<close> and \<^verbatim>\<open>a.b\<close>, and
  \<^verbatim>\<open>select({"a": 1})\<close> raises \<^verbatim>\<open>TypeError\<close>.
\<close>

lemma select_overlapping_paths_type_error:
  "insert_many new_collection [[(''a'', VInt 5)]]
     = (Inr 1,
        \<lparr>documents = [[(''_id'', VInt 1), (''a'', VInt 5)]],
         indexes = [([''_id''], {[VInt 1]})]\<rparr>,
        [[(''a'', VInt 5), (''_id'', VInt 1)]])
   \<and> update_many
       \<lparr>documents = [[(''_id'', VInt 1), (''a'', VInt 5)]],
        indexes = [([''_id''], {[VInt 1]})]\<rparr>
       (Some []) [(''$set'', VDict [(''a'', VDict [(''b'', VInt 1)])])]
     = (Inr 1,
        \<lparr>documents = [[(''_id'', VInt 1), (''a'', VInt 5), (''a.b'', VInt 1)]],
         indexes = [([''_id''], {[VInt 1]})]\<rparr>)
   \<and> select [(''_id'', VInt 1), (''a'', VInt 5), (''a.b'', VInt 1)] (Some [(''a'', VInt 1)])
     = Inl TypeError"
  by code_simp

text \<open>
  The invalid-selection error itself is raised as documented. For every projection whose
  flattened values are each 0 or 1, \<^verbatim>\<open>select\<close> raises it if and only if the projection
  gives 0 to a field other than \<^verbatim>\<open>_id\<close> and 1 to a field other than \<^verbatim>\<open>_id\<close>.
\<close>

lemma select_invalid_selection_iff:
  assumes "list_all (\<lambda>kv. snd kv = VInt 0 \<or> snd kv = VInt 1) (flatten ks)"
  shows "select data (Some ks) = Inl InvalidSelection \<longleftrightarrow>
           (\<exists>k0 k1. k0 \<noteq> ''_id'' \<and> k1 \<noteq> ''_id'' \<and>
              (k0, VInt 0) \<in> set (flatten ks) \<and> (k1, VInt 1) \<in> set (flatten ks))"
proof -
  have "select data (Some ks) = Inl InvalidSelection \<longleftrightarrow> mixed (flatten ks)"
  proof (cases "ks = []")
    case True
    have "flatten [] = []" by (simp add: flatten.simps)
    with True unflatten_from_error [of "[]" data InvalidSelection] show ?thesis
      by (auto simp: select_def unflatten_def mixed_def)
  next
    case False
    show ?thesis
    proof (cases "validate_keys data (flatten ks)")
      case (Inl e)
      with validate_keys_flags [OF assms, of data] False show ?thesis
        by (auto simp: select_def)
    next
      case (Inr keys')
      with validate_keys_flags(1) [OF assms, of data] have nm: "\<not> mixed (flatten ks)" by simp
      have "select data (Some ks) \<noteq> Inl InvalidSelection"
      proof (cases "select_items data keys' []")
        case (Inl e)
        with Inr False select_items_error [of data keys' "[]" e] show ?thesis
          by (simp add: select_def)
      next
        case sel: (Inr selection)
        with Inr False unflatten_from_error [of "[]" selection InvalidSelection] show ?thesis
          by (auto simp: select_def unflatten_def)
      qed
      with nm show ?thesis by simp
    qed
  qed
  then show ?thesis by (simp add: mixed_def)
qed

lemma select_invalid_selection_example:
  "list_all (\<lambda>kv. snd kv = VInt 0 \<or> snd kv = VInt 1) (flatten [(''a'', VInt 1), (''b'', VInt 0)])
   \<and> select [(''_id'', VInt 7), (''a'', VInt 1), (''b'', VInt 2)]
       (Some [(''a'', VInt 1), (''b'', VInt 0)]) = Inl InvalidSelection
   \<and> list_all (\<lambda>kv. snd kv = VInt 0 \<or> snd kv = VInt 1) (flatten [(''a'', VInt 0), (''_id'', VInt 1)])
   \<and> select [(''_id'', VInt 7), (''a'', VInt 1), (''b'', VInt 2)]
       (Some [(''a'', VInt 0), (''_id'', VInt 1)]) \<noteq> Inl InvalidSelection"
proof -
  have fl: "flatten [(''a'', VInt 1), (''b'', VInt 0)] = [(''b'', VInt 0), (''a'', VInt 1)]"
    by code_simp
  have fl2: "flatten [(''a'', VInt 0), (''_id'', VInt 1)] = [(''_id'', VInt 1), (''a'', VInt 0)]"
    by code_simp
  have h: "list_all (\<lambda>kv. snd kv = VInt 0 \<or> snd kv = VInt 1)
             (flatten [(''a'', VInt 1), (''b'', VInt 0)])"
    by (simp add: fl)
  have h2: "list_all (\<lambda>kv. snd kv = VInt 0 \<or> snd kv = VInt 1)
             (flatten [(''a'', VInt 0), (''_id'', VInt 1)])"
    by (simp add: fl2)
  have m: "\<exists>k0 k1. k0 \<noteq> ''_id'' \<and> k1 \<noteq> ''_id'' \<and>
              (k0, VInt 0) \<in> set (flatten [(''a'', VInt 1), (''b'', VInt 0)]) \<and>
              (k1, VInt 1) \<in> set (flatten [(''a'', VInt 1), (''b'', VInt 0)])"
    unfolding fl by (intro exI [of _ "''b''"] exI [of _ "''a''"]) simp
  have m2: "\<not> (\<exists>k0 k1. k0 \<noteq> ''_id'' \<and> k1 \<noteq> ''_id'' \<and>
              (k0, VInt 0) \<in> set (flatten [(''a'', VInt 0), (''_id'', VInt 1)]) \<and>
              (k1, VInt 1) \<in> set (flatten [(''a'', VInt 0), (''_id'', VInt 1)]))"
    unfolding fl2 by auto
  from select_invalid_selection_iff
    [OF h, of "[(''_id'', VInt 7), (''a'', VInt 1), (''b'', VInt 2)]"] m
  have c1: "select [(''_id'', VInt 7), (''a'', VInt 1), (''b'', VInt 2)]
       (Some [(''a'', VInt 1), (''b'', VInt 0)]) = Inl InvalidSelection"
    by blast
  from select_invalid_selection_iff
    [OF h2, of "[(''_id'', VInt 7), (''a'', VInt 1), (''b'', VInt 2)]"] m2
  have c2: "select [(''_id'', VInt 7), (''a'', VInt 1), (''b'', VInt 2)]
       (Some [(''a'', VInt 0), (''_id'', VInt 1)]) \<noteq> Inl InvalidSelection"
    by blast
  from h c1 h2 c2 show ?thesis by blast
qed

text \<open>
  C6. The claim: for a projection whose flattened values are each 0 or 1, \<^verbatim>\<open>select\<close>
  raises the invalid-selection error exactly when the projection mixes 0 and 1 on fields
  other than \<^verbatim>\<open>_id\<close>, and a uniform projection produces a projection without error. The
  second half fails on an ordinary document. \<^verbatim>\<open>key_is_match\<close> documents that a selected
  key which is a prefix of the stored key without ending at a dot does not match
  (\<^verbatim>\<open>key_is_match(abc.def.ghi, abc.de) -> False\<close>), but for the stored field \<^verbatim>\<open>aa\<close> and
  the selected field \<^verbatim>\<open>a\<close> the string \<^verbatim>\<open>"aa".replace("a", "")\<close> is empty and the subscript
  \<^verbatim>\<open>[0]\<close> raises \<^verbatim>\<open>IndexError\<close>. So after inserting \<^verbatim>\<open>{"aa": 1}\<close> into a new
  collection, \<^verbatim>\<open>find\<close> with the uniform projection \<^verbatim>\<open>{"a": 1}\<close> raises \<^verbatim>\<open>IndexError\<close>
  instead of returning the document projected to \<^verbatim>\<open>_id\<close>.
\<close>

theorem select_uniform_spec_raises_index_error:
  "insert_many new_collection [[(''aa'', VInt 1)]]
     = (Inr 1,
        \<lparr>documents = [[(''_id'', VInt 1), (''aa'', VInt 1)]],
         indexes = [([''_id''], {[VInt 1]})]\<rparr>,
        [[(''aa'', VInt 1), (''_id'', VInt 1)]])
   \<and> key_is_match ''aa'' ''a'' = Inl IndexError
   \<and> select [(''_id'', VInt 1), (''aa'', VInt 1)] (Some [(''a'', VInt 1)]) = Inl IndexError
   \<and> find
       \<lparr>documents = [[(''_id'', VInt 1), (''aa'', VInt 1)]],
        indexes = [([''_id''], {[VInt 1]})]\<rparr>
       None (Some [(''a'', VInt 1)])
     = Inl IndexError"
  by code_simp

section \<open>Properties of the collection\<close>

text \<open>
  C3. The claim: after any sequence of the public operations the \<^verbatim>\<open>_id\<close> values of the
  documents of a collection are pairwise distinct. \<^verbatim>\<open>update_many\<close> promises a
  \<^verbatim>\<open>DuplicateKeyError\<close> "if the update creates a duplication of unique indexes", but it
  validates nothing: after inserting \<^verbatim>\<open>{"_id": 1}\<close> and \<^verbatim>\<open>{"_id": 2}\<close>, the update
  \<^verbatim>\<open>{"$set": {"_id": 1}}\<close> with the query \<^verbatim>\<open>{}\<close> returns 2 and leaves two documents with
  \<^verbatim>\<open>_id\<close> 1.
\<close>

theorem update_many_duplicates_id:
  "insert_many new_collection [[(''_id'', VInt 1)], [(''_id'', VInt 2)]]
     = (Inr 2,
        \<lparr>documents = [[(''_id'', VInt 1)], [(''_id'', VInt 2)]],
         indexes = [([''_id''], {[VInt 1], [VInt 2]})]\<rparr>,
        [[(''_id'', VInt 1)], [(''_id'', VInt 2)]])
   \<and> update_many
       \<lparr>documents = [[(''_id'', VInt 1)], [(''_id'', VInt 2)]],
        indexes = [([''_id''], {[VInt 1], [VInt 2]})]\<rparr>
       (Some []) [(''$set'', VDict [(''_id'', VInt 1)])]
     = (Inr 2,
        \<lparr>documents = [[(''_id'', VInt 1)], [(''_id'', VInt 1)]],
         indexes = [([''_id''], {[VInt 1], [VInt 2]})]\<rparr>)"
  by code_simp

subsection \<open>\<^verbatim>\<open>insert_many\<close>\<close>

lemma dict_set_new: "map_of d k = None \<Longrightarrow> dict_set d k v = d @ [(k, v)]"
  by (induction d) (auto split: if_splits)

lemma py_add1_int: "py_add1 m = Inr v \<Longrightarrow> \<exists>i. v = VInt i"
  by (cases m) auto

lemma get_new_id_int: "get_new_id c = Inr v \<Longrightarrow> \<exists>i. v = VInt i"
  by (auto simp: get_new_id_def dest: py_add1_int split: list.splits option.splits sum.splits)

lemma assign_id_assigned: "assign_id c d = Inr d' \<Longrightarrow> assigned d d'"
  by (auto simp: assign_id_def assigned_def dict_set_new dest: get_new_id_int split: if_splits sum.splits)

lemma insert_loop_success:
  "insert_loop c ds = (None, c', ds') \<Longrightarrow>
     list_all2 assigned ds ds' \<and> documents c' = documents c @ map flatten ds'"
proof (induction ds arbitrary: c c' ds')
  case Nil
  then show ?case by simp
next
  case (Cons d ds)
  from Cons.prems obtain d' where a: "assign_id c d = Inr d'"
    by (cases "assign_id c d") auto
  from Cons.prems a have v: "validate_index c (flatten d') (map fst (indexes c)) = Inr ()"
    by (cases "validate_index c (flatten d') (map fst (indexes c))") (auto simp: Let_def)
  obtain r idx where rk: "register_keys (flatten d') (indexes c) = (r, idx)"
    by (cases "register_keys (flatten d') (indexes c)")
  from Cons.prems a v rk have r: "r = None"
    by (cases r) (auto simp: Let_def)
  let ?c1 = "c\<lparr>documents := documents c @ [flatten d'], indexes := idx\<rparr>"
  obtain r2 c2 rest' where il: "insert_loop ?c1 ds = (r2, c2, rest')"
    by (cases "insert_loop ?c1 ds")
  from Cons.prems a v rk r il have eq: "r2 = None" "c' = c2" "ds' = d' # rest'"
    by (auto simp: Let_def)
  from Cons.IH [of ?c1 c2 rest'] il eq
  have "list_all2 assigned ds rest'" "documents c2 = documents ?c1 @ map flatten rest'"
    by auto
  with eq assign_id_assigned [OF a] show ?case by simp
qed

text \<open>
  C10. \<^verbatim>\<open>insert_many\<close> mutates the records the caller passes: after a call that succeeds,
  every input record that lacked \<^verbatim>\<open>_id\<close> carries the integer \<^verbatim>\<open>_id\<close> assigned to it, and
  the documents stored are the flattened copies of the records so changed, so the write
  into the caller's record comes before the document is stored.
\<close>

theorem insert_many_writes_id_into_caller_record:
  assumes "insert_many c ds = (Inr n, c', ds')"
  shows "n = length ds \<and> list_all2 assigned ds ds' \<and>
         documents c' = documents c @ map flatten ds'"
proof -
  from assms have "insert_loop c ds = (None, c', ds')" and "n = length ds"
    by (auto simp: insert_many_def split: prod.splits option.splits)
  with insert_loop_success show ?thesis by blast
qed

theorem insert_many_writes_id_witness:
  "insert_many new_collection [[(''a'', VInt 1)], [(''_id'', VInt 5), (''a'', VInt 2)]]
     = (Inr 2,
        \<lparr>documents = [[(''_id'', VInt 1), (''a'', VInt 1)], [(''a'', VInt 2), (''_id'', VInt 5)]],
         indexes = [([''_id''], {[VInt 1], [VInt 5]})]\<rparr>,
        [[(''a'', VInt 1), (''_id'', VInt 1)], [(''_id'', VInt 5), (''a'', VInt 2)]])
   \<and> list_all2 assigned
       [[(''a'', VInt 1)], [(''_id'', VInt 5), (''a'', VInt 2)]]
       [[(''a'', VInt 1), (''_id'', VInt 1)], [(''_id'', VInt 5), (''a'', VInt 2)]]
   \<and> documents
       \<lparr>documents = [[(''_id'', VInt 1), (''a'', VInt 1)], [(''a'', VInt 2), (''_id'', VInt 5)]],
        indexes = [([''_id''], {[VInt 1], [VInt 5]})]\<rparr>
     = documents new_collection
       @ map flatten [[(''a'', VInt 1), (''_id'', VInt 1)], [(''_id'', VInt 5), (''a'', VInt 2)]]"
proof -
  have e: "insert_many new_collection [[(''a'', VInt 1)], [(''_id'', VInt 5), (''a'', VInt 2)]]
     = (Inr 2,
        \<lparr>documents = [[(''_id'', VInt 1), (''a'', VInt 1)], [(''a'', VInt 2), (''_id'', VInt 5)]],
         indexes = [([''_id''], {[VInt 1], [VInt 5]})]\<rparr>,
        [[(''a'', VInt 1), (''_id'', VInt 1)], [(''_id'', VInt 5), (''a'', VInt 2)]])"
    by code_simp
  from insert_many_writes_id_into_caller_record [OF e] e show ?thesis by simp
qed

lemma py_max_ints:
  "map (\<lambda>d. map_of d ''_id'') ds = map (\<lambda>i. Some (VInt i)) ids \<Longrightarrow>
   py_max (VInt m) ds = Inr (VInt (fold max ids m))"
proof (induction ds arbitrary: m ids)
  case Nil
  then show ?case by simp
next
  case (Cons d ds)
  then obtain i ids' where ids: "ids = i # ids'" by (cases ids) auto
  with Cons.prems have d: "map_of d ''_id'' = Some (VInt i)"
    and rest: "map (\<lambda>d. map_of d ''_id'') ds = map (\<lambda>i. Some (VInt i)) ids'"
    by auto
  show ?case
  proof (cases "m < i")
    case True
    then have "max i m = i" by simp
    with Cons.IH [OF rest, of i] d ids True show ?thesis by simp
  next
    case False
    then have "max i m = m" by simp
    with Cons.IH [OF rest, of m] d ids False show ?thesis by simp
  qed
qed

lemma get_new_id_ints:
  assumes "map (\<lambda>d. map_of d ''_id'') (documents c) = map (\<lambda>i. Some (VInt i)) ids"
  shows "get_new_id c = Inr (VInt (if ids = [] then 1 else Max (set ids) + 1))"
proof (cases "documents c")
  case Nil
  with assms show ?thesis by (simp add: get_new_id_def)
next
  case (Cons d ds)
  with assms obtain i ids' where ids: "ids = i # ids'" by (cases ids) auto
  with Cons assms have d: "map_of d ''_id'' = Some (VInt i)"
    and rest: "map (\<lambda>d. map_of d ''_id'') ds = map (\<lambda>i. Some (VInt i)) ids'"
    by auto
  have "Max (set ids) = fold max ids' i"
    unfolding ids by (rule Max.set_eq_fold)
  with py_max_ints [OF rest, of i] Cons d ids show ?thesis
    by (simp add: get_new_id_def)
qed

lemma insert_loop_head:
  assumes "assign_id c document = Inr document'"
  shows "\<exists>r c' rest. insert_loop c (document # ds) = (r, c', document' # rest)"
  using assms by (auto simp: Let_def split: sum.splits prod.splits option.splits)

text \<open>
  C4. When the stored documents carry the integers \<open>ids\<close> as their \<^verbatim>\<open>_id\<close> and the first
  record of a batch lacks \<^verbatim>\<open>_id\<close>, \<^verbatim>\<open>insert_many\<close> assigns it \<open>k\<close>: 1 for an empty
  collection, the greatest \<^verbatim>\<open>_id\<close> of the collection plus 1 otherwise. The record of the
  caller gets \<^verbatim>\<open>_id = k\<close>, and when the call succeeds the document stored for it is the
  flattened record with that \<^verbatim>\<open>_id\<close>.
\<close>

theorem insert_many_assigns_next_id:
  assumes ids: "map (\<lambda>d. map_of d ''_id'') (documents c) = map (\<lambda>i. Some (VInt i)) ids"
    and no_id: "map_of document ''_id'' = None"
    and k: "k = (if ids = [] then 1 else Max (set ids) + 1)"
  shows "(\<exists>r c' rest. insert_many c (document # ds)
            = (r, c', (document @ [(''_id'', VInt k)]) # rest))
       \<and> (\<forall>n c' ds'. insert_many c (document # ds) = (Inr n, c', ds') \<longrightarrow>
            documents c' ! length (documents c) = flatten (document @ [(''_id'', VInt k)]))"
proof -
  have a: "assign_id c document = Inr (document @ [(''_id'', VInt k)])"
    using get_new_id_ints [OF ids] no_id k by (simp add: assign_id_def dict_set_new)
  from insert_loop_head [OF a, of ds] obtain r c' rest
    where il: "insert_loop c (document # ds) = (r, c', (document @ [(''_id'', VInt k)]) # rest)"
    by blast
  then have first: "\<exists>r c' rest. insert_many c (document # ds)
            = (r, c', (document @ [(''_id'', VInt k)]) # rest)"
    by (cases r) (auto simp: insert_many_def)
  have second: "documents c2 ! length (documents c) = flatten (document @ [(''_id'', VInt k)])"
    if "insert_many c (document # ds) = (Inr n, c2, ds2)" for n c2 ds2
  proof -
    from that have il2: "insert_loop c (document # ds) = (None, c2, ds2)"
      by (auto simp: insert_many_def split: prod.splits option.splits)
    with il have "ds2 = (document @ [(''_id'', VInt k)]) # rest" by simp
    with insert_loop_success [OF il2] show ?thesis
      by (simp add: nth_append)
  qed
  from first second show ?thesis by blast
qed

theorem insert_many_assigns_next_id_witness:
  "map (\<lambda>d. map_of d ''_id'')
      [[(''_id'', VInt 4), (''a'', VInt 1)], [(''_id'', VInt 2), (''a'', VInt 2)]]
     = map (\<lambda>i. Some (VInt i)) [4, 2]
   \<and> insert_many
       \<lparr>documents = [[(''_id'', VInt 4), (''a'', VInt 1)], [(''_id'', VInt 2), (''a'', VInt 2)]],
        indexes = [([''_id''], {[VInt 4], [VInt 2]})]\<rparr>
       [[(''a'', VInt 3)]]
     = (Inr 1,
        \<lparr>documents = [[(''_id'', VInt 4), (''a'', VInt 1)], [(''_id'', VInt 2), (''a'', VInt 2)],
                      [(''_id'', VInt 5), (''a'', VInt 3)]],
         indexes = [([''_id''], {[VInt 4], [VInt 2], [VInt 5]})]\<rparr>,
        [[(''a'', VInt 3), (''_id'', VInt 5)]])
   \<and> insert_many new_collection [[(''a'', VInt 3)]]
     = (Inr 1,
        \<lparr>documents = [[(''_id'', VInt 1), (''a'', VInt 3)]],
         indexes = [([''_id''], {[VInt 1]})]\<rparr>,
        [[(''a'', VInt 3), (''_id'', VInt 1)]])"
proof -
  let ?c = "\<lparr>documents = [[(''_id'', VInt 4), (''a'', VInt 1)], [(''_id'', VInt 2), (''a'', VInt 2)]],
        indexes = [([''_id''], {[VInt 4], [VInt 2]})]\<rparr>"
  have h1: "map (\<lambda>d. map_of d ''_id'') (documents ?c) = map (\<lambda>i. Some (VInt i)) [4, 2]"
    by simp
  have h2: "map_of [(''a'', VInt 3)] ''_id'' = None" by simp
  have h3: "(5::int) = (if [4, 2::int] = [] then 1 else Max (set [4, 2]) + 1)" by simp
  have e1: "insert_many ?c [[(''a'', VInt 3)]]
     = (Inr 1,
        \<lparr>documents = [[(''_id'', VInt 4), (''a'', VInt 1)], [(''_id'', VInt 2), (''a'', VInt 2)],
                      [(''_id'', VInt 5), (''a'', VInt 3)]],
         indexes = [([''_id''], {[VInt 4], [VInt 2], [VInt 5]})]\<rparr>,
        [[(''a'', VInt 3), (''_id'', VInt 5)]])"
    by code_simp
  have e2: "insert_many new_collection [[(''a'', VInt 3)]]
     = (Inr 1,
        \<lparr>documents = [[(''_id'', VInt 1), (''a'', VInt 3)]],
         indexes = [([''_id''], {[VInt 1]})]\<rparr>,
        [[(''a'', VInt 3), (''_id'', VInt 1)]])"
    by code_simp
  from insert_many_assigns_next_id [OF h1 h2 h3, of "[]"] h1 e1 e2 show ?thesis
    by simp
qed

lemma insert_loop_append:
  "insert_loop c (ds1 @ ds2) =
     (case insert_loop c ds1 of
        (None, c1, ds1') \<Rightarrow>
          (case insert_loop c1 ds2 of (r, c2, ds2') \<Rightarrow> (r, c2, ds1' @ ds2'))
      | (Some e, c1, ds1') \<Rightarrow> (Some e, c1, ds1' @ ds2))"
proof (induction ds1 arbitrary: c)
  case Nil
  then show ?case by (simp split: prod.splits)
next
  case (Cons d ds1)
  show ?case
  proof (cases "assign_id c d")
    case (Inl e)
    then show ?thesis by simp
  next
    case (Inr d')
    show ?thesis
    proof (cases "validate_index c (flatten d') (map fst (indexes c))")
      case (Inl e)
      with Inr show ?thesis by (simp add: Let_def)
    next
      case v: (Inr u)
      obtain r idx where rk: "register_keys (flatten d') (indexes c) = (r, idx)"
        by (cases "register_keys (flatten d') (indexes c)")
      show ?thesis
      proof (cases r)
        case (Some e)
        with Inr v rk show ?thesis by (simp add: Let_def)
      next
        case None
        with Inr v rk Cons.IH [of "c\<lparr>documents := documents c @ [flatten d'], indexes := idx\<rparr>"]
        show ?thesis
          by (simp add: Let_def split: prod.splits option.splits)
      qed
    qed
  qed
qed

lemma validate_index_ok:
  "validate_index c data idxs = Inr () \<longleftrightarrow>
     list_all (\<lambda>index. \<exists>vs tracked. doc_values data index = Inr vs \<and>
                 map_of (indexes c) index = Some tracked \<and> list_all hashable vs \<and>
                 vs \<notin> tracked) idxs"
  by (induction idxs) (auto split: sum.splits option.splits)

lemma validate_index_duplicate:
  assumes "list_all (\<lambda>index. \<exists>vs tracked. doc_values data index = Inr vs \<and>
                 map_of (indexes c) index = Some tracked \<and> list_all hashable vs) idxs"
    and "index \<in> set idxs" "doc_values data index = Inr vs"
        "map_of (indexes c) index = Some tracked" "vs \<in> tracked"
  shows "validate_index c data idxs = Inl DuplicateKeyError"
  using assms by (induction idxs) (auto split: sum.splits option.splits)

lemma tracked_index: "k \<in> set (map fst xs) \<Longrightarrow> \<exists>v. map_of xs k = Some v"
  by (induction xs) auto

lemma insert_loop_duplicate:
  assumes a: "assign_id c d = Inr d'"
    and v: "validate_index c (flatten d') (map fst (indexes c)) = Inl e"
  shows "insert_loop c (d # ds) = (Some e, c, d' # ds)"
  using a v by (simp add: Let_def)

lemma insert_many_duplicate_key:
  assumes before: "insert_many c ds1 = (Inr n, c1, ds1')"
    and a: "assign_id c1 d = Inr d'"
    and present: "list_all (\<lambda>index. \<exists>vs. doc_values (flatten d') index = Inr vs \<and>
                    list_all hashable vs) (map fst (indexes c1))"
    and dup: "map_of (indexes c1) index = Some tracked"
             "doc_values (flatten d') index = Inr vs" "vs \<in> tracked"
  shows "insert_many c (ds1 @ d # ds2) = (Inl DuplicateKeyError, c1, ds1' @ d' # ds2)
         \<and> documents c1 = documents c @ map flatten ds1'"
proof -
  from before have il: "insert_loop c ds1 = (None, c1, ds1')"
    by (auto simp: insert_many_def split: prod.splits option.splits)
  have all: "list_all (\<lambda>index. \<exists>vs tracked. doc_values (flatten d') index = Inr vs \<and>
                 map_of (indexes c1) index = Some tracked \<and> list_all hashable vs)
          (map fst (indexes c1))"
    using present tracked_index [of _ "indexes c1"] unfolding list_all_iff by blast
  from map_of_SomeD [OF dup(1)] have mem: "index \<in> set (map fst (indexes c1))"
    by force
  have "validate_index c1 (flatten d') (map fst (indexes c1)) = Inl DuplicateKeyError"
    by (rule validate_index_duplicate [OF all mem dup(2) dup(1) dup(3)])
  from insert_loop_duplicate [OF a this, of ds2] il
  have "insert_loop c (ds1 @ d # ds2) = (Some DuplicateKeyError, c1, ds1' @ d' # ds2)"
    by (simp add: insert_loop_append)
  with insert_loop_success [OF il] show ?thesis
    by (simp add: insert_many_def)
qed

lemma insert_many_success_validated:
  assumes "insert_many c (ds1 @ d # ds2) = (Inr m, c', ds')"
  shows "\<exists>c1 ds1' d'. insert_many c ds1 = (Inr (length ds1), c1, ds1') \<and>
           assign_id c1 d = Inr d' \<and>
           list_all (\<lambda>index. \<exists>vs tracked. doc_values (flatten d') index = Inr vs \<and>
                       map_of (indexes c1) index = Some tracked \<and> list_all hashable vs \<and>
                       vs \<notin> tracked)
             (map fst (indexes c1))"
proof -
  from assms have il: "insert_loop c (ds1 @ d # ds2) = (None, c', ds')"
    by (auto simp: insert_many_def split: prod.splits option.splits)
  obtain r c1 ds1' where l1: "insert_loop c ds1 = (r, c1, ds1')"
    by (cases "insert_loop c ds1")
  with il have r: "r = None"
    by (cases r) (auto simp: insert_loop_append)
  obtain r2 c2 ds2' where l2: "insert_loop c1 (d # ds2) = (r2, c2, ds2')"
    by (cases "insert_loop c1 (d # ds2)")
  with il l1 r have r2: "r2 = None"
    by (simp add: insert_loop_append)
  from l2 r2 obtain d' where a: "assign_id c1 d = Inr d'"
    by (cases "assign_id c1 d") auto
  from l2 r2 a have "validate_index c1 (flatten d') (map fst (indexes c1)) = Inr ()"
    by (cases "validate_index c1 (flatten d') (map fst (indexes c1))") (auto simp: Let_def)
  then have "list_all (\<lambda>index. \<exists>vs tracked. doc_values (flatten d') index = Inr vs \<and>
                       map_of (indexes c1) index = Some tracked \<and> list_all hashable vs \<and>
                       vs \<notin> tracked)
             (map fst (indexes c1))"
    by (simp only: validate_index_ok)
  moreover from l1 r have "insert_many c ds1 = (Inr (length ds1), c1, ds1')"
    by (simp add: insert_many_def)
  ultimately show ?thesis using a by blast
qed

text \<open>
  C1. \<^verbatim>\<open>insert_many\<close> validates each record against every tracked unique index and
  stops at the first duplicate. If the records \<open>ds1\<close> of a batch were inserted and the next
  record, which has a hashable value for every tracked index, repeats a tracked value
  tuple, the call raises the duplicate-key error and the collection is the one reached
  after \<open>ds1\<close>: the documents of \<open>ds1\<close> stay appended. If the whole batch succeeds, every
  record was checked against every index tracked when its turn came and its value tuple
  was in none of them. In particular, with a unique index on \<^verbatim>\<open>a\<close>, inserting
  \<^verbatim>\<open>{"a": 1}\<close> succeeds, inserting \<^verbatim>\<open>{"a": 1}\<close> again raises the duplicate-key error, and
  \<^verbatim>\<open>count({})\<close> is then 1.
\<close>

theorem insert_many_fails_fast_on_duplicate:
  "(insert_many c ds1 = (Inr n, c1, ds1') \<and> assign_id c1 d = Inr d' \<and>
    list_all (\<lambda>index. \<exists>vs. doc_values (flatten d') index = Inr vs \<and> list_all hashable vs)
      (map fst (indexes c1)) \<and>
    map_of (indexes c1) index = Some tracked \<and>
    doc_values (flatten d') index = Inr vs \<and> vs \<in> tracked
    \<longrightarrow> insert_many c (ds1 @ d # ds2) = (Inl DuplicateKeyError, c1, ds1' @ d' # ds2) \<and>
        documents c1 = documents c @ map flatten ds1')
   \<and> (insert_many c (ds1 @ d # ds2) = (Inr m, c', ds')
    \<longrightarrow> (\<exists>c1 ds1' d'. insert_many c ds1 = (Inr (length ds1), c1, ds1') \<and>
           assign_id c1 d = Inr d' \<and>
           list_all (\<lambda>index. \<exists>vs tracked. doc_values (flatten d') index = Inr vs \<and>
                       map_of (indexes c1) index = Some tracked \<and> list_all hashable vs \<and>
                       vs \<notin> tracked)
             (map fst (indexes c1))))
   \<and> (let c0 = snd (create_index new_collection (KeyName ''a'') True);
          first = insert_many c0 [[(''a'', VInt 1)]];
          second = insert_many (fst (snd first)) [[(''a'', VInt 1)]]
      in fst first = Inr 1 \<and> fst second = Inl DuplicateKeyError \<and>
         count (fst (snd second)) (Some []) = Inr 1)"
proof (intro conjI impI)
  assume "insert_many c ds1 = (Inr n, c1, ds1') \<and> assign_id c1 d = Inr d' \<and>
    list_all (\<lambda>index. \<exists>vs. doc_values (flatten d') index = Inr vs \<and> list_all hashable vs)
      (map fst (indexes c1)) \<and>
    map_of (indexes c1) index = Some tracked \<and>
    doc_values (flatten d') index = Inr vs \<and> vs \<in> tracked"
  then have *: "insert_many c (ds1 @ d # ds2) = (Inl DuplicateKeyError, c1, ds1' @ d' # ds2)
         \<and> documents c1 = documents c @ map flatten ds1'"
    using insert_many_duplicate_key [of c ds1 n c1 ds1' d d' index tracked vs ds2] by blast
  from * show "insert_many c (ds1 @ d # ds2) = (Inl DuplicateKeyError, c1, ds1' @ d' # ds2)"
    by simp
  from * show "documents c1 = documents c @ map flatten ds1'" by simp
next
  assume "insert_many c (ds1 @ d # ds2) = (Inr m, c', ds')"
  then show "\<exists>c1 ds1' d'. insert_many c ds1 = (Inr (length ds1), c1, ds1') \<and>
           assign_id c1 d = Inr d' \<and>
           list_all (\<lambda>index. \<exists>vs tracked. doc_values (flatten d') index = Inr vs \<and>
                       map_of (indexes c1) index = Some tracked \<and> list_all hashable vs \<and>
                       vs \<notin> tracked)
             (map fst (indexes c1))"
    by (rule insert_many_success_validated)
next
  show "let c0 = snd (create_index new_collection (KeyName ''a'') True);
          first = insert_many c0 [[(''a'', VInt 1)]];
          second = insert_many (fst (snd first)) [[(''a'', VInt 1)]]
      in fst first = Inr 1 \<and> fst second = Inl DuplicateKeyError \<and>
         count (fst (snd second)) (Some []) = Inr 1"
    by code_simp
qed

theorem insert_many_fails_fast_witness:
  "insert_many \<lparr>documents = [], indexes = [([''_id''], {}), ([''a''], {})]\<rparr> [[(''a'', VInt 1)]]
     = (Inr 1,
        \<lparr>documents = [[(''_id'', VInt 1), (''a'', VInt 1)]],
         indexes = [([''_id''], {[VInt 1]}), ([''a''], {[VInt 1]})]\<rparr>,
        [[(''a'', VInt 1), (''_id'', VInt 1)]])
   \<and> insert_many \<lparr>documents = [], indexes = [([''_id''], {}), ([''a''], {})]\<rparr>
       [[(''a'', VInt 1)], [(''a'', VInt 1)], [(''a'', VInt 7)]]
     = (Inl DuplicateKeyError,
        \<lparr>documents = [[(''_id'', VInt 1), (''a'', VInt 1)]],
         indexes = [([''_id''], {[VInt 1]}), ([''a''], {[VInt 1]})]\<rparr>,
        [[(''a'', VInt 1), (''_id'', VInt 1)], [(''a'', VInt 1), (''_id'', VInt 2)],
         [(''a'', VInt 7)]])
   \<and> count \<lparr>documents = [[(''_id'', VInt 1), (''a'', VInt 1)]],
         indexes = [([''_id''], {[VInt 1]}), ([''a''], {[VInt 1]})]\<rparr> (Some []) = Inr 1"
proof -
  let ?c0 = "\<lparr>documents = [], indexes = [([''_id''], {}), ([''a''], {})]\<rparr>"
  let ?c1 = "\<lparr>documents = [[(''_id'', VInt 1), (''a'', VInt 1)]],
         indexes = [([''_id''], {[VInt 1]}), ([''a''], {[VInt 1]})]\<rparr>"
  let ?d' = "[(''a'', VInt 1), (''_id'', VInt 2)]"
  have before: "insert_many ?c0 [[(''a'', VInt 1)]] = (Inr 1, ?c1, [[(''a'', VInt 1), (''_id'', VInt 1)]])"
    by code_simp
  have a: "assign_id ?c1 [(''a'', VInt 1)] = Inr ?d'" by code_simp
  have fl: "flatten ?d' = [(''_id'', VInt 2), (''a'', VInt 1)]" by code_simp
  have present: "list_all (\<lambda>index. \<exists>vs. doc_values (flatten ?d') index = Inr vs \<and> list_all hashable vs)
      (map fst (indexes ?c1))"
    by (simp add: fl)
  have dup: "map_of (indexes ?c1) [''a''] = Some {[VInt 1]}"
    "doc_values (flatten ?d') [''a''] = Inr [VInt 1]" "[VInt 1] \<in> {[VInt 1]}"
    by (simp_all add: fl)
  have cnt: "count ?c1 (Some []) = Inr 1" by code_simp
  from insert_many_fails_fast_on_duplicate
    [of ?c0 "[[(''a'', VInt 1)]]" 1 ?c1 "[[(''a'', VInt 1), (''_id'', VInt 1)]]" "[(''a'', VInt 1)]"
      ?d' "[''a'']" "{[VInt 1]}" "[VInt 1]" "[[(''a'', VInt 7)]]"]
    before a present dup cnt
  show ?thesis by simp
qed

subsection \<open>\<^verbatim>\<open>find\<close>\<close>

lemma find_loop_Inr:
  "find_loop ds q s = Inr rs \<longleftrightarrow>
     (\<forall>d\<in>set ds. \<not> isl (match d q)) \<and>
     map Inr rs = map (\<lambda>d. select d s) (filter (\<lambda>d. match d q = Inr True) ds)"
proof (induction ds arbitrary: rs)
  case Nil
  then show ?case by auto
next
  case (Cons d ds)
  show ?case
  proof (cases "match d q")
    case (Inl e)
    then show ?thesis by simp
  next
    case (Inr b)
    show ?thesis
    proof (cases b)
      case False
      with Inr Cons show ?thesis by simp
    next
      case True
      show ?thesis
      proof (cases "select d s")
        case (Inl e)
        with Inr True show ?thesis by auto
      next
        case r: (Inr r)
        show ?thesis
        proof (cases "find_loop ds q s")
          case (Inl e)
          with Inr True r Cons show ?thesis by auto
        next
          case fr: (Inr found)
          with Inr True r Cons [of found] Cons show ?thesis by (cases rs) auto
        qed
      qed
    qed
  qed
qed

text \<open>
  C5. \<^verbatim>\<open>find(query, selection)\<close> returns exactly the documents whose \<^verbatim>\<open>match(query)\<close> is
  true, in insertion order, each projected by \<^verbatim>\<open>select(selection)\<close>: it returns \<open>rs\<close> if
  and only if no \<^verbatim>\<open>match\<close> raises and \<open>rs\<close> are the projections, all without error, of the
  matching documents in their order. In particular \<^verbatim>\<open>find({"x.$gte": 5})\<close> over
  \<^verbatim>\<open>{"x": 3}\<close>, \<^verbatim>\<open>{"x": 5}\<close>, \<^verbatim>\<open>{"x": 9}\<close>, inserted in that order, returns the documents
  with \<^verbatim>\<open>x\<close> 5 and 9, in that order.
\<close>

theorem find_returns_matching_in_order:
  "(find c q s = Inr rs \<longleftrightarrow>
      (\<forall>d\<in>set (documents c). \<not> isl (match d q)) \<and>
      map Inr rs = map (\<lambda>d. select d s) (filter (\<lambda>d. match d q = Inr True) (documents c)))
   \<and> (let c' = fst (snd (insert_many new_collection
                            [[(''x'', VInt 3)], [(''x'', VInt 5)], [(''x'', VInt 9)]]))
      in find c' (Some [(''x.$gte'', VInt 5)]) None
           = Inr [[(''_id'', VInt 2), (''x'', VInt 5)], [(''_id'', VInt 3), (''x'', VInt 9)]])"
proof
  show "find c q s = Inr rs \<longleftrightarrow>
      (\<forall>d\<in>set (documents c). \<not> isl (match d q)) \<and>
      map Inr rs = map (\<lambda>d. select d s) (filter (\<lambda>d. match d q = Inr True) (documents c))"
    unfolding find_def by (rule find_loop_Inr)
next
  show "let c' = fst (snd (insert_many new_collection
                            [[(''x'', VInt 3)], [(''x'', VInt 5)], [(''x'', VInt 9)]]))
      in find c' (Some [(''x.$gte'', VInt 5)]) None
           = Inr [[(''_id'', VInt 2), (''x'', VInt 5)], [(''_id'', VInt 3), (''x'', VInt 9)]]"
    by code_simp
qed

theorem find_witness:
  "list_all (\<lambda>d. \<not> isl (match d (Some [(''x.$gte'', VInt 5)])))
     [[(''_id'', VInt 1), (''x'', VInt 3)], [(''_id'', VInt 2), (''x'', VInt 5)],
      [(''_id'', VInt 3), (''x'', VInt 9)]]
   \<and> find
       \<lparr>documents = [[(''_id'', VInt 1), (''x'', VInt 3)], [(''_id'', VInt 2), (''x'', VInt 5)],
                     [(''_id'', VInt 3), (''x'', VInt 9)]],
        indexes = [([''_id''], {[VInt 1], [VInt 2], [VInt 3]})]\<rparr>
       (Some [(''x.$gte'', VInt 5)]) None
     = Inr [[(''_id'', VInt 2), (''x'', VInt 5)], [(''_id'', VInt 3), (''x'', VInt 9)]]"
proof -
  let ?q = "Some [(''x.$gte'', VInt 5)]"
  have m1: "match [(''_id'', VInt 1), (''x'', VInt 3)] ?q = Inr False" by code_simp
  have m2: "match [(''_id'', VInt 2), (''x'', VInt 5)] ?q = Inr True" by code_simp
  have m3: "match [(''_id'', VInt 3), (''x'', VInt 9)] ?q = Inr True" by code_simp
  have s2: "select [(''_id'', VInt 2), (''x'', VInt 5)] None = Inr [(''_id'', VInt 2), (''x'', VInt 5)]"
    by code_simp
  have s3: "select [(''_id'', VInt 3), (''x'', VInt 9)] None = Inr [(''_id'', VInt 3), (''x'', VInt 9)]"
    by code_simp
  show ?thesis
    using find_returns_matching_in_order
      [of "\<lparr>documents = [[(''_id'', VInt 1), (''x'', VInt 3)], [(''_id'', VInt 2), (''x'', VInt 5)],
                     [(''_id'', VInt 3), (''x'', VInt 9)]],
        indexes = [([''_id''], {[VInt 1], [VInt 2], [VInt 3]})]\<rparr>" ?q None
        "[[(''_id'', VInt 2), (''x'', VInt 5)], [(''_id'', VInt 3), (''x'', VInt 9)]]"]
    by (simp add: m1 m2 m3 s2 s3)
qed

subsection \<open>\<^verbatim>\<open>delete_many\<close>\<close>

lemma delete_loop_ok:
  "\<forall>d\<in>set ds. \<not> isl (match d q) \<Longrightarrow>
   delete_loop ds q =
     Inr (filter (\<lambda>d. match d q = Inr False) ds, length (filter (\<lambda>d. match d q = Inr True) ds))"
proof (induction ds)
  case Nil
  then show ?case by simp
next
  case (Cons d ds)
  then obtain b where b: "match d q = Inr b" by (cases "match d q") auto
  with Cons show ?case by (cases b) auto
qed

lemma delete_many_indexes: "indexes (snd (delete_many c q)) = indexes c"
  by (simp add: delete_many_def split: sum.splits prod.splits)

text \<open>
  C8. When \<^verbatim>\<open>match\<close> raises on no document, \<^verbatim>\<open>delete_many(query)\<close> returns the number
  of matching documents and keeps exactly the documents that do not match, in their
  order. The tracked value sets of the indexes are never touched, so the tuples of the
  removed documents stay in them.
\<close>

theorem delete_many_removes_matching:
  assumes "\<forall>d\<in>set (documents c). \<not> isl (match d q)"
  shows "delete_many c q =
           (Inr (length (filter (\<lambda>d. match d q = Inr True) (documents c))),
            c\<lparr>documents := filter (\<lambda>d. match d q = Inr False) (documents c)\<rparr>)
         \<and> indexes (snd (delete_many c q)) = indexes c"
  using delete_loop_ok [OF assms] by (simp add: delete_many_def)

theorem delete_many_witness:
  "list_all (\<lambda>d. \<not> isl (match d (Some [(''a'', VInt 1)])))
     [[(''_id'', VInt 1), (''a'', VInt 1)], [(''_id'', VInt 2), (''a'', VInt 2)],
      [(''_id'', VInt 3), (''a'', VInt 1)]]
   \<and> delete_many
       \<lparr>documents = [[(''_id'', VInt 1), (''a'', VInt 1)], [(''_id'', VInt 2), (''a'', VInt 2)],
                     [(''_id'', VInt 3), (''a'', VInt 1)]],
        indexes = [([''_id''], {[VInt 1], [VInt 2], [VInt 3]})]\<rparr>
       (Some [(''a'', VInt 1)])
     = (Inr 2,
        \<lparr>documents = [[(''_id'', VInt 2), (''a'', VInt 2)]],
         indexes = [([''_id''], {[VInt 1], [VInt 2], [VInt 3]})]\<rparr>)"
proof -
  let ?q = "Some [(''a'', VInt 1)]"
  have m1: "match [(''_id'', VInt 1), (''a'', VInt 1)] ?q = Inr True" by code_simp
  have m2: "match [(''_id'', VInt 2), (''a'', VInt 2)] ?q = Inr False" by code_simp
  have m3: "match [(''_id'', VInt 3), (''a'', VInt 1)] ?q = Inr True" by code_simp
  have h: "\<forall>d\<in>set (documents
       \<lparr>documents = [[(''_id'', VInt 1), (''a'', VInt 1)], [(''_id'', VInt 2), (''a'', VInt 2)],
                     [(''_id'', VInt 3), (''a'', VInt 1)]],
        indexes = [([''_id''], {[VInt 1], [VInt 2], [VInt 3]})]\<rparr>).
      \<not> isl (match d ?q)"
    by (simp add: m1 m2 m3)
  show ?thesis
    using h delete_many_removes_matching [OF h] by (simp add: m1 m2 m3)
qed

section \<open>Properties of the database facade\<close>

text \<open>
  C7. The claim: \<^verbatim>\<open>read_and_write\<close> returns the updated document projected by
  \<open>selection\<close>. The method takes \<open>selection\<close> and never uses it. On a collection holding
  \<^verbatim>\<open>{"a": 1, "b": 0, "_id": 3}\<close>, \<^verbatim>\<open>read_and_write(c, {"a": 1}, {"b": 9}, {"a": 1})\<close> returns
  the whole document, \<^verbatim>\<open>b\<close> included, where \<^verbatim>\<open>read\<close> with the same selection returns
  \<^verbatim>\<open>{"_id": 3, "a": 1}\<close>.
\<close>

theorem read_and_write_ignores_selection:
  "fst (read_and_write
          (snd (db_write initiate_connection ''c''
                  (One [(''a'', VInt 1), (''b'', VInt 0), (''_id'', VInt 3)]) None))
          ''c'' (Some [(''a'', VInt 1)]) (One [(''b'', VInt 9)]) (Some [(''a'', VInt 1)]))
     = Inr (Some [(''_id'', VInt 3), (''b'', VInt 9), (''a'', VInt 1)])
   \<and> read
       (snd (read_and_write
          (snd (db_write initiate_connection ''c''
                  (One [(''a'', VInt 1), (''b'', VInt 0), (''_id'', VInt 3)]) None))
          ''c'' (Some [(''a'', VInt 1)]) (One [(''b'', VInt 9)]) (Some [(''a'', VInt 1)])))
       ''c'' (Some [(''_id'', VInt 3)]) (Some [(''a'', VInt 1)])
     = Inr [[(''_id'', VInt 3), (''a'', VInt 1)]]"
  by code_simp

end
